theory Spec2Isabelle
  imports Main "HOL-Library.AList"
begin

section \<open>Text and regular expressions\<close>

text \<open>
  Text is a \<^typ>\<open>string\<close> of characters with code points below 256; the lines of a
  file are its physical lines as Python's file iteration yields them, each line keeping
  its final newline.  The patterns of
  \<^verbatim>\<open>libertyParser.py\<close> are all concatenations of single characters, character
  classes under a quantifier, capture groups and the end anchor, so a pattern is a list
  of items and matching is the backtracking search of Python's \<^verbatim>\<open>re\<close>: a greedy
  quantifier first tries one more character, a lazy one first tries the rest of the
  pattern.
\<close>

definition newline :: char where
  "newline = CHR 0x0A"

definition backslash :: char where
  "backslash = CHR 0x5C"

definition dquote :: char where
  "dquote = CHR 0x22"

definition squote :: char where
  "squote = CHR 0x27"

text \<open>Python's \<^verbatim>\<open>str.isspace\<close> and \<^verbatim>\<open>\s\<close> on the code points below 256.\<close>

definition is_space :: "char \<Rightarrow> bool" where
  "is_space c = (let n = (of_char c :: nat) in
     (9 \<le> n \<and> n \<le> 13) \<or> (28 \<le> n \<and> n \<le> 32) \<or> n = 133 \<or> n = 160)"

datatype cls = CLit char | CDot | CSpace | CNonSpace

fun cls_ok :: "cls \<Rightarrow> char \<Rightarrow> bool" where
  "cls_ok (CLit a) c = (c = a)"
| "cls_ok CDot c = (c \<noteq> newline)"
| "cls_ok CSpace c = is_space c"
| "cls_ok CNonSpace c = (\<not> is_space c)"

datatype item =
    ROne cls      \<comment> \<open>one character of the class\<close>
  | RStar cls     \<comment> \<open>\<^verbatim>\<open>x*\<close>, greedy\<close>
  | RPlus cls     \<comment> \<open>\<^verbatim>\<open>x+\<close>, greedy\<close>
  | RLazy cls     \<comment> \<open>\<^verbatim>\<open>x*?\<close>, lazy\<close>
  | ROpen         \<comment> \<open>a capture group opens\<close>
  | RClose        \<comment> \<open>a capture group closes\<close>
  | REol          \<comment> \<open>\<^verbatim>\<open>$\<close>: the end of the text, or just before its final newline\<close>

type_synonym regex = "item list"

text \<open>
  \<open>rmatch r s p ms\<close> matches the pattern \<open>r\<close> at the front of \<open>s\<close>, where \<open>p\<close> characters
  have been consumed already and \<open>ms\<close> lists the positions of the group boundaries passed
  so far.  It returns the boundaries and the end position of the first match in
  backtracking order.
\<close>

fun rmatch :: "regex \<Rightarrow> string \<Rightarrow> nat \<Rightarrow> nat list \<Rightarrow> (nat list \<times> nat) option" where
  "rmatch [] s p ms = Some (ms, p)"
| "rmatch (ROne c # r) s p ms =
     (case s of [] \<Rightarrow> None
      | x # t \<Rightarrow> if cls_ok c x then rmatch r t (Suc p) ms else None)"
| "rmatch (RStar c # r) s p ms =
     (case s of [] \<Rightarrow> rmatch r [] p ms
      | x # t \<Rightarrow>
          if cls_ok c x then
            (case rmatch (RStar c # r) t (Suc p) ms of
               Some res \<Rightarrow> Some res
             | None \<Rightarrow> rmatch r (x # t) p ms)
          else rmatch r (x # t) p ms)"
| "rmatch (RPlus c # r) s p ms =
     (case s of [] \<Rightarrow> None
      | x # t \<Rightarrow> if cls_ok c x then rmatch (RStar c # r) t (Suc p) ms else None)"
| "rmatch (RLazy c # r) s p ms =
     (case rmatch r s p ms of
        Some res \<Rightarrow> Some res
      | None \<Rightarrow>
          (case s of [] \<Rightarrow> None
           | x # t \<Rightarrow> if cls_ok c x then rmatch (RLazy c # r) t (Suc p) ms else None))"
| "rmatch (ROpen # r) s p ms = rmatch r s p (ms @ [p])"
| "rmatch (RClose # r) s p ms = rmatch r s p (ms @ [p])"
| "rmatch (REol # r) s p ms =
     (if s = [] \<or> s = [newline] then rmatch r s p ms else None)"

text \<open>\<^verbatim>\<open>pattern.match(line)\<close>: the match is anchored at the start of the line.\<close>

definition re_match :: "regex \<Rightarrow> string \<Rightarrow> (nat list \<times> nat) option" where
  "re_match r s = rmatch r s 0 []"

definition matches :: "regex \<Rightarrow> string \<Rightarrow> bool" where
  "matches r s = (re_match r s \<noteq> None)"

text \<open>\<^verbatim>\<open>pattern.search(line)\<close>: the leftmost start at which the pattern matches.\<close>

fun rsearch :: "regex \<Rightarrow> string \<Rightarrow> nat \<Rightarrow> (nat list \<times> nat) option" where
  "rsearch r [] p = rmatch r [] p []"
| "rsearch r (x # t) p =
     (case rmatch r (x # t) p [] of
        Some res \<Rightarrow> Some res
      | None \<Rightarrow> rsearch r t (Suc p))"

definition searches :: "regex \<Rightarrow> string \<Rightarrow> bool" where
  "searches r s = (rsearch r s 0 \<noteq> None)"

text \<open>\<^verbatim>\<open>match.group(k)\<close> for \<open>k \<ge> 1\<close>: the text between the \<open>k\<close>-th group's boundaries.\<close>

definition group_of :: "string \<Rightarrow> nat list \<Rightarrow> nat \<Rightarrow> string" where
  "group_of s ms k = (let a = ms ! (2 * k - 2); b = ms ! (2 * k - 1) in take (b - a) (drop a s))"

subsection \<open>The patterns of the parser\<close>

text \<open>The patterns compiled in \<^verbatim>\<open>__init__\<close>, item by item.\<close>

definition group_re :: regex where
  \<comment> \<open>\<^verbatim>\<open>^(\s*)(\S+)\s*\((.*?)\)\s*{\s*$\<close>\<close>
  "group_re = [ROpen, RStar CSpace, RClose, ROpen, RPlus CNonSpace, RClose, RStar CSpace,
     ROne (CLit CHR ''(''), ROpen, RLazy CDot, RClose, ROne (CLit CHR '')''), RStar CSpace,
     ROne (CLit CHR ''{''), RStar CSpace, REol]"

definition group_done_re :: regex where
  \<comment> \<open>\<^verbatim>\<open>^\s*}\s*$\<close>\<close>
  "group_done_re = [RStar CSpace, ROne (CLit CHR ''}''), RStar CSpace, REol]"

definition simple_attr_re :: regex where
  \<comment> \<open>\<^verbatim>\<open>^(\s*)(\S+)\s*:\s*(.+)\s*;.*$\<close>\<close>
  "simple_attr_re = [ROpen, RStar CSpace, RClose, ROpen, RPlus CNonSpace, RClose, RStar CSpace,
     ROne (CLit CHR '':''), RStar CSpace, ROpen, RPlus CDot, RClose, RStar CSpace,
     ROne (CLit CHR '';''), RStar CDot, REol]"

definition special_simple_attr_re :: regex where
  \<comment> \<open>\<^verbatim>\<open>^(\s*)(\S+)\s*:\s*(.+)\s*$\<close>\<close>
  "special_simple_attr_re = [ROpen, RStar CSpace, RClose, ROpen, RPlus CNonSpace, RClose,
     RStar CSpace, ROne (CLit CHR '':''), RStar CSpace, ROpen, RPlus CDot, RClose,
     RStar CSpace, REol]"

definition complex_attr_re :: regex where
  \<comment> \<open>\<^verbatim>\<open>^(\s*)(\S+)\s*(\(.+\))\s*;.*$\<close>\<close>
  "complex_attr_re = [ROpen, RStar CSpace, RClose, ROpen, RPlus CNonSpace, RClose, RStar CSpace,
     ROpen, ROne (CLit CHR ''(''), RPlus CDot, ROne (CLit CHR '')''), RClose, RStar CSpace,
     ROne (CLit CHR '';''), RStar CDot, REol]"

definition special_complex_attr_re :: regex where
  \<comment> \<open>\<^verbatim>\<open>^(\s*)(\S+)\s*(\(.+\))\s*$\<close>\<close>
  "special_complex_attr_re = [ROpen, RStar CSpace, RClose, ROpen, RPlus CNonSpace, RClose,
     RStar CSpace, ROpen, ROne (CLit CHR ''(''), RPlus CDot, ROne (CLit CHR '')''), RClose,
     RStar CSpace, REol]"

definition multilines_re :: regex where
  \<comment> \<open>\<^verbatim>\<open>^(.*)\\s*$\<close> in a raw string: a backslash, then any number of the letter s\<close>
  "multilines_re = [ROpen, RStar CDot, RClose, ROne (CLit backslash), RStar (CLit CHR ''s''), REol]"

definition multilines_done_re :: regex where
  \<comment> \<open>\<^verbatim>\<open>^(.*;)\s*$\<close>\<close>
  "multilines_done_re = [ROpen, RStar CDot, ROne (CLit CHR '';''), RClose, RStar CSpace, REol]"

definition comment_start_re :: regex where
  \<comment> \<open>\<^verbatim>\<open>^(\s*)/\*.*$\<close>\<close>
  "comment_start_re = [ROpen, RStar CSpace, RClose, ROne (CLit CHR ''/''), ROne (CLit CHR ''*''),
     RStar CDot, REol]"

definition comment_end_re :: regex where
  \<comment> \<open>\<^verbatim>\<open>.*\*/\s*$\<close>\<close>
  "comment_end_re = [RStar CDot, ROne (CLit CHR ''*''), ROne (CLit CHR ''/''), RStar CSpace, REol]"

definition empty_line_re :: regex where
  \<comment> \<open>\<^verbatim>\<open>^\s*$\<close>\<close>
  "empty_line_re = [RStar CSpace, REol]"

section \<open>The data model\<close>

text \<open>
  A group is a Python dictionary in insertion order: an association list that is updated
  in place when the key is there and extended at the end when it is not
  (\<^const>\<open>AList.update\<close>).  The bookkeeping entries \<^verbatim>\<open>fatherGroupNum\<close>, \<^verbatim>\<open>depth\<close>,
  \<^verbatim>\<open>type\<close> and \<^verbatim>\<open>name\<close> share the dictionary with the attributes.  A value is a string,
  an integer or a list; after \<^verbatim>\<open>organizeData\<close> the list under \<^verbatim>\<open>group\<close> holds references
  to the dictionaries of the flat list, written \<open>PRef i\<close> for the dictionary at index \<open>i\<close>.
\<close>

datatype pyatom = PInt int | PStr string | PRef nat

datatype pyval = Scalar pyatom | PList "pyatom list"

type_synonym pydict = "(string \<times> pyval) list"

datatype error =
    IndexError | TypeError | AttributeError | KeyError | RecursionError
  | FileNotFoundError | SysExit int

text \<open>Python's list indexing: a negative index counts from the end.\<close>

definition py_index :: "'a list \<Rightarrow> int \<Rightarrow> nat option" where
  "py_index xs i =
     (let n = int (length xs); j = (if i < 0 then n + i else i)
      in if 0 \<le> j \<and> j < n then Some (nat j) else None)"

fun digit_char :: "nat \<Rightarrow> char" where
  "digit_char n = char_of (48 + n)"

fun str_of_nat :: "nat \<Rightarrow> string" where
  "str_of_nat n = (if n < 10 then [digit_char n] else str_of_nat (n div 10) @ [digit_char (n mod 10)])"

definition str_of_int :: "int \<Rightarrow> string" where
  "str_of_int i = (if i < 0 then CHR ''-'' # str_of_nat (nat (- i)) else str_of_nat (nat i))"

definition py_strip :: "string \<Rightarrow> string" where
  "py_strip s = rev (dropWhile is_space (rev (dropWhile is_space s)))"

section \<open>The line parser\<close>

text \<open>
  The \<^verbatim>\<open>if\<close>/\<^verbatim>\<open>elif\<close> chain of \<^verbatim>\<open>libertyParser\<close> (lines 185 to 252), in its order: the
  first pattern that matches decides the line.
\<close>

datatype line_class =
    ComplexAttr string string
  | SimpleAttr string string
  | GroupOpen nat string string
  | GroupDone
  | CommentStart
  | EmptyLine
  | SpecialComplexAttr string string
  | SpecialSimpleAttr string string
  | Unrecognizable

definition classify :: "string \<Rightarrow> line_class" where
  "classify line =
     (case re_match complex_attr_re line of
        Some (ms, _) \<Rightarrow> ComplexAttr (group_of line ms 2) (group_of line ms 3)
      | None \<Rightarrow>
     (case re_match simple_attr_re line of
        Some (ms, _) \<Rightarrow> SimpleAttr (group_of line ms 2) (group_of line ms 3)
      | None \<Rightarrow>
     (case re_match group_re line of
        Some (ms, _) \<Rightarrow>
          GroupOpen (length (group_of line ms 1)) (group_of line ms 2) (group_of line ms 3)
      | None \<Rightarrow>
     if matches group_done_re line then GroupDone
     else if matches comment_start_re line then CommentStart
     else if matches empty_line_re line then EmptyLine
     else
     (case re_match special_complex_attr_re line of
        Some (ms, _) \<Rightarrow> SpecialComplexAttr (group_of line ms 2) (group_of line ms 3)
      | None \<Rightarrow>
     (case re_match special_simple_attr_re line of
        Some (ms, _) \<Rightarrow> SpecialSimpleAttr (group_of line ms 2) (group_of line ms 3)
      | None \<Rightarrow> Unrecognizable)))))"

text \<open>
  The local variables of \<^verbatim>\<open>libertyParser\<close>, and what it has printed to the diagnostic
  stream (one entry per \<^verbatim>\<open>print\<close>).
\<close>

record pstate =
  multiLinesString :: string
  commentMark :: bool
  groupList :: "pydict list"
  groupListNum :: nat
  openedGroupNumList :: "nat list"
  lastOpenedGroupNum :: int
  libFileLine :: nat
  printed :: "string list"

definition getLastOpenedGroupNum :: "nat list \<Rightarrow> int" where
  "getLastOpenedGroupNum opened = (if opened \<noteq> [] then int (last opened) else - 1)"

text \<open>Lines 190 to 196: a repeated key of a complex attribute turns the value into a list.\<close>

definition add_complex :: "string \<Rightarrow> string \<Rightarrow> pydict \<Rightarrow> pydict" where
  "add_complex key valueList d =
     (case map_of d key of
        Some (PList xs) \<Rightarrow> AList.update key (PList (xs @ [PStr valueList])) d
      | Some (Scalar a) \<Rightarrow> AList.update key (PList [a, PStr valueList]) d
      | None \<Rightarrow> AList.update key (Scalar (PStr valueList)) d)"

text \<open>Lines 201 and 249: a simple attribute is assigned.\<close>

definition add_simple :: "string \<Rightarrow> string \<Rightarrow> pydict \<Rightarrow> pydict" where
  "add_simple key v d = AList.update key (Scalar (PStr v)) d"

text \<open>
  An exception that ends the parse, with the lines printed to the diagnostic stream
  before it was raised.
\<close>

type_synonym raised = "error \<times> string list"

text \<open>
  \<^verbatim>\<open>groupList[lastOpenedGroupNum]\<close> is read and updated through Python's indexing: with no
  group in the list it raises, and the index \<open>-1\<close> of an empty stack is the last group of
  the list.
\<close>

definition on_last_opened :: "(pydict \<Rightarrow> pydict) \<Rightarrow> pstate \<Rightarrow> raised + pstate" where
  "on_last_opened f s =
     (case py_index (groupList s) (lastOpenedGroupNum s) of
        None \<Rightarrow> Inl (IndexError, printed s)
      | Some g \<Rightarrow> Inr (s\<lparr>groupList := (groupList s)[g := f (groupList s ! g)]\<rparr>))"

definition line_msg :: "string \<Rightarrow> nat \<Rightarrow> string \<Rightarrow> string" where
  "line_msg level n what = level @ '': Line '' @ str_of_nat n @ '': '' @ what"

definition new_group :: "int \<Rightarrow> nat \<Rightarrow> string \<Rightarrow> string \<Rightarrow> pydict" where
  "new_group father groupDepth groupType groupName =
     [(''fatherGroupNum'', Scalar (PInt father)),
      (''depth'', Scalar (PInt (int groupDepth))),
      (''type'', Scalar (PStr groupType)),
      (''name'', Scalar (PStr groupName))]"

text \<open>
  The branch bodies of the chain, applied to the (possibly joined) line.  The two
  irregular branches print their warning before they reach the group.
\<close>

definition act :: "string \<Rightarrow> pstate \<Rightarrow> raised + pstate" where
  "act line s =
     (case classify line of
        ComplexAttr key valueList \<Rightarrow> on_last_opened (add_complex key valueList) s
      | SimpleAttr key v \<Rightarrow> on_last_opened (add_simple key v) s
      | GroupOpen groupDepth groupType groupName \<Rightarrow>
          (let father = getLastOpenedGroupNum (openedGroupNumList s);
               opened = openedGroupNumList s @ [groupListNum s]
           in Inr (s\<lparr>groupList := groupList s @ [new_group father groupDepth groupType groupName],
                      openedGroupNumList := opened,
                      groupListNum := groupListNum s + 1,
                      lastOpenedGroupNum := getLastOpenedGroupNum opened\<rparr>))
      | GroupDone \<Rightarrow>
          (if openedGroupNumList s = [] then Inl (IndexError, printed s)
           else (let opened = butlast (openedGroupNumList s)
                 in Inr (s\<lparr>openedGroupNumList := opened,
                            lastOpenedGroupNum := getLastOpenedGroupNum opened\<rparr>)))
      | CommentStart \<Rightarrow>
          Inr (if \<not> matches comment_end_re line then s\<lparr>commentMark := True\<rparr> else s)
      | EmptyLine \<Rightarrow> Inr s
      | SpecialComplexAttr key valueList \<Rightarrow>
          on_last_opened (add_complex key valueList)
            (s\<lparr>printed := printed s @
               [line_msg ''*Warning*'' (libFileLine s) ''Irregular liberty line!'',
                ''          '' @ py_strip line]\<rparr>)
      | SpecialSimpleAttr key v \<Rightarrow>
          on_last_opened (add_simple key v)
            (s\<lparr>printed := printed s @
               [line_msg ''*Warning*'' (libFileLine s) ''Irregular line!'',
                ''          '' @ py_strip line]\<rparr>)
      | Unrecognizable \<Rightarrow>
          Inr (s\<lparr>printed := printed s @
               [line_msg ''*Error*'' (libFileLine s) ''Unrecognizable line!'',
                ''         '' @ py_strip line]\<rparr>))"

text \<open>
  One iteration of the loop over the file (lines 160 to 255).  A line reaches the chain
  unless a comment is open, or the line ends in the continuation marker, or an open
  continuation does not end here; after the chain the continuation buffer is empty.
\<close>

definition clear_multi :: "pstate \<Rightarrow> pstate" where
  "clear_multi s = s\<lparr>multiLinesString := []\<rparr>"

definition step :: "pstate \<Rightarrow> string \<Rightarrow> raised + pstate" where
  "step s0 line =
     (let s = s0\<lparr>libFileLine := libFileLine s0 + 1\<rparr> in
      if commentMark s then
        Inr (if matches comment_end_re line then s\<lparr>commentMark := False\<rparr> else s)
      else
        (case re_match multilines_re line of
           Some (ms, _) \<Rightarrow>
             Inr (s\<lparr>multiLinesString := multiLinesString s @ group_of line ms 1\<rparr>)
         | None \<Rightarrow>
             if multiLinesString s \<noteq> [] then
               (case re_match multilines_done_re line of
                  Some (ms, _) \<Rightarrow>
                    map_sum id clear_multi (act (multiLinesString s @ group_of line ms 1) s)
                | None \<Rightarrow>
                    Inr (s\<lparr>printed := printed s @
                          [line_msg ''*Error*'' (libFileLine s) ''multi-lines is not finished rightly!'',
                           ''         '' @ py_strip line],
                          multiLinesString := []\<rparr>))
             else map_sum id clear_multi (act line s)))"

fun run :: "pstate \<Rightarrow> string list \<Rightarrow> raised + pstate" where
  "run s [] = Inr s"
| "run s (line # rest) = (case step s line of Inl e \<Rightarrow> Inl e | Inr s' \<Rightarrow> run s' rest)"

definition init_state :: pstate where
  "init_state = \<lparr>multiLinesString = [], commentMark = False, groupList = [], groupListNum = 0,
     openedGroupNumList = [], lastOpenedGroupNum = - 1, libFileLine = 0, printed = []\<rparr>"

text \<open>
  \<^verbatim>\<open>libertyParser\<close> on the lines of the file: the flat group list it returns, with the
  diagnostics it printed.  An exception ends the parse and is the result, with the
  diagnostics printed until then.
\<close>

definition libertyParser :: "string list \<Rightarrow> raised + (pydict list \<times> string list)" where
  "libertyParser lines =
     (case run init_state lines of Inl e \<Rightarrow> Inl e | Inr s \<Rightarrow> Inr (groupList s, printed s))"

section \<open>The tree\<close>

text \<open>
  \<^verbatim>\<open>organizeData\<close> walks the flat list from its last index down to index 1 and inserts the
  group in front of its father's \<^verbatim>\<open>group\<close> list.  The inserted value is the group's
  dictionary itself, not a copy: the model stores the reference \<open>PRef i\<close>, and the list of
  dictionaries is the store these references point into.
\<close>

definition setdefault :: "string \<Rightarrow> pyval \<Rightarrow> pydict \<Rightarrow> pydict" where
  "setdefault key v d = (case map_of d key of None \<Rightarrow> AList.update key v d | Some _ \<Rightarrow> d)"

definition organize_one :: "nat \<Rightarrow> pydict list \<Rightarrow> error + pydict list" where
  "organize_one i gl =
     (case map_of (gl ! i) ''fatherGroupNum'' of
        None \<Rightarrow> Inl KeyError
      | Some fatherGroupNum \<Rightarrow>
          if fatherGroupNum \<noteq> Scalar (PInt (- 1)) then
            (case fatherGroupNum of
               Scalar (PInt f) \<Rightarrow>
                 (case py_index gl f of
                    None \<Rightarrow> Inl IndexError
                  | Some p \<Rightarrow>
                      (let d = setdefault ''group'' (PList []) (gl ! p) in
                       case map_of d ''group'' of
                         Some (PList xs) \<Rightarrow>
                           Inr (gl[p := AList.update ''group'' (PList (PRef i # xs)) d])
                       | _ \<Rightarrow> Inl AttributeError))
             | _ \<Rightarrow> Inl TypeError)
          else Inr gl)"

text \<open>\<open>organize_from i\<close> runs the loop body for the indices \<open>i, i - 1, \<dots>, 1\<close>.\<close>

fun organize_from :: "nat \<Rightarrow> pydict list \<Rightarrow> error + pydict list" where
  "organize_from 0 gl = Inr gl"
| "organize_from (Suc i) gl =
     (case organize_one (Suc i) gl of Inl e \<Rightarrow> Inl e | Inr gl' \<Rightarrow> organize_from i gl')"

text \<open>
  The result \<^verbatim>\<open>groupList[0]\<close> is the dictionary at index 0 of the returned store; on an
  empty list the index raises.
\<close>

definition organizeData :: "pydict list \<Rightarrow> error + pydict list" where
  "organizeData flat =
     (case organize_from (length flat - 1) flat of
        Inl e \<Rightarrow> Inl e
      | Inr gl \<Rightarrow> if gl = [] then Inl IndexError else Inr gl)"

section \<open>Queries\<close>

text \<open>
  The elements a \<^verbatim>\<open>for\<close> loop over the value of \<^verbatim>\<open>group\<close> visits: the elements of a
  list, the characters of a string; an integer is not iterable.
\<close>

definition iter_value :: "pyval \<Rightarrow> error + pyatom list" where
  "iter_value v =
     (case v of
        PList xs \<Rightarrow> Inr xs
      | Scalar (PStr t) \<Rightarrow> Inr (map (\<lambda>c. PStr [c]) t)
      | Scalar _ \<Rightarrow> Inl TypeError)"

definition is_cell :: "pydict \<Rightarrow> bool" where
  "is_cell d = (map_of d ''type'' = Some (Scalar (PStr ''cell'')))"

text \<open>
  \<^verbatim>\<open>getCellList\<close>: the names of the root's children of type \<^verbatim>\<open>cell\<close>.  An element that
  is no dictionary has no \<^verbatim>\<open>get\<close>.
\<close>

fun cell_names :: "pydict list \<Rightarrow> pyatom list \<Rightarrow> error + pyval list" where
  "cell_names gl [] = Inr []"
| "cell_names gl (PRef i # xs) =
     (if is_cell (gl ! i) then
        (case map_of (gl ! i) ''name'' of
           None \<Rightarrow> Inl KeyError
         | Some n \<Rightarrow> map_sum id ((#) n) (cell_names gl xs))
      else cell_names gl xs)"
| "cell_names gl (_ # xs) = Inl AttributeError"

definition getCellList :: "pydict list \<Rightarrow> error + pyval list" where
  "getCellList gl =
     (case map_of (gl ! 0) ''group'' of
        None \<Rightarrow> Inr []
      | Some v \<Rightarrow> (case iter_value v of Inl e \<Rightarrow> Inl e | Inr xs \<Rightarrow> cell_names gl xs))"

text \<open>
  \<^verbatim>\<open>getCellArea\<close>: for the cells of the filter (all of them when it is empty) the value
  of \<^verbatim>\<open>area\<close>, the empty string when the cell has none, and the empty string for the
  requested names that are no cell.  A cell name that is a list cannot be a key.
\<close>

fun cell_areas ::
  "pydict list \<Rightarrow> string list \<Rightarrow> pyatom list \<Rightarrow> (string \<times> pyval) list \<Rightarrow> error + (string \<times> pyval) list"
where
  "cell_areas gl cellList [] acc = Inr acc"
| "cell_areas gl cellList (PRef i # xs) acc =
     (if is_cell (gl ! i) then
        (case map_of (gl ! i) ''name'' of
           None \<Rightarrow> Inl KeyError
         | Some (Scalar (PStr cellName)) \<Rightarrow>
             if cellList = [] \<or> cellName \<in> set cellList
             then cell_areas gl cellList xs
                    (AList.update cellName
                       (case map_of (gl ! i) ''area'' of Some v \<Rightarrow> v | None \<Rightarrow> Scalar (PStr []))
                       acc)
             else cell_areas gl cellList xs acc
         | Some _ \<Rightarrow> if cellList = [] then Inl TypeError else cell_areas gl cellList xs acc)
      else cell_areas gl cellList xs acc)"
| "cell_areas gl cellList (_ # xs) acc = Inl AttributeError"

definition setdefault_all :: "string list \<Rightarrow> (string \<times> pyval) list \<Rightarrow> (string \<times> pyval) list" where
  "setdefault_all cellList acc = fold (\<lambda>cellName. setdefault cellName (Scalar (PStr []))) cellList acc"

definition getCellArea :: "pydict list \<Rightarrow> string list \<Rightarrow> error + (string \<times> pyval) list" where
  "getCellArea gl cellList =
     (case map_of (gl ! 0) ''group'' of
        None \<Rightarrow> Inr (setdefault_all cellList [])
      | Some v \<Rightarrow>
          (case iter_value v of
             Inl e \<Rightarrow> Inl e
           | Inr xs \<Rightarrow> map_sum id (setdefault_all cellList) (cell_areas gl cellList xs [])))"

section \<open>The serializer\<close>

text \<open>Python's \<^verbatim>\<open>repr\<close> of a string, and \<^verbatim>\<open>str\<close> of a value as an f-string formats it.\<close>

definition hex_digit :: "nat \<Rightarrow> char" where
  "hex_digit n = (if n < 10 then char_of (48 + n) else char_of (87 + n))"

definition printable :: "char \<Rightarrow> bool" where
  "printable c = (let n = (of_char c :: nat) in (32 \<le> n \<and> n < 127) \<or> (161 \<le> n \<and> n \<noteq> 173))"

definition repr_char :: "char \<Rightarrow> char \<Rightarrow> string" where
  "repr_char q c =
     (if c = q \<or> c = backslash then [backslash, c]
      else if c = CHR 0x09 then [backslash, CHR ''t'']
      else if c = newline then [backslash, CHR ''n'']
      else if c = CHR 0x0D then [backslash, CHR ''r'']
      else if printable c then [c]
      else [backslash, CHR ''x'', hex_digit (of_char c div 16), hex_digit (of_char c mod 16)])"

definition py_repr :: "string \<Rightarrow> string" where
  "py_repr t =
     (let q = (if squote \<in> set t \<and> dquote \<notin> set t then dquote else squote)
      in [q] @ concat (map (repr_char q) t) @ [q])"

fun join :: "string \<Rightarrow> string list \<Rightarrow> string" where
  "join sep [] = []"
| "join sep [x] = x"
| "join sep (x # y # ys) = x @ sep @ join sep (y # ys)"

text \<open>
  A reference stands for a dictionary; references are stored under \<^verbatim>\<open>group\<close> only, whose
  value is never formatted, so the text given for one here is never written.
\<close>

fun repr_atom :: "pyatom \<Rightarrow> string" where
  "repr_atom (PStr t) = py_repr t"
| "repr_atom (PInt i) = str_of_int i"
| "repr_atom (PRef i) = ''{...}''"

fun py_str :: "pyval \<Rightarrow> string" where
  "py_str (Scalar (PStr t)) = t"
| "py_str (Scalar a) = repr_atom a"
| "py_str (PList xs) = ''['' @ join '', '' (map repr_atom xs) @ '']''"

text \<open>\<^verbatim>\<open>re.sub\<close> for a pattern that matches no empty text, and \<^verbatim>\<open>str.split\<close> on a character.\<close>

function re_sub :: "regex \<Rightarrow> string \<Rightarrow> string \<Rightarrow> string" where
  "re_sub r repl [] = []"
| "re_sub r repl (x # t) =
     (case rmatch r (x # t) 0 [] of
        Some (_, e) \<Rightarrow>
          if e = 0 then x # re_sub r repl t else repl @ re_sub r repl (drop (e - 1) t)
      | None \<Rightarrow> x # re_sub r repl t)"
  by pat_completeness auto
termination
  by (relation "measure (\<lambda>(r, repl, t). length t)") auto

fun split_on :: "char \<Rightarrow> string \<Rightarrow> string list" where
  "split_on c [] = [[]]"
| "split_on c (x # t) =
     (if x = c then [] # split_on c t
      else (case split_on c t of [] \<Rightarrow> [[x]] | h # rest \<Rightarrow> (x # h) # rest))"

definition paren_re :: regex where
  \<comment> \<open>\<^verbatim>\<open>\(.+\)\<close>\<close>
  "paren_re = [ROne (CLit CHR ''(''), RPlus CDot, ROne (CLit CHR '')'')]"

definition quote_comma_re :: regex where
  \<comment> \<open>\<^verbatim>\<open>"\s*,\s*"\<close>\<close>
  "quote_comma_re = [ROne (CLit dquote), RStar CSpace, ROne (CLit CHR '',''), RStar CSpace,
     ROne (CLit dquote)]"

definition spaces :: "int \<Rightarrow> string" where
  "spaces n = replicate (nat n) CHR '' ''"

text \<open>
  The \<^verbatim>\<open>values\<close> branch (lines 310 to 322).  The texts of lines 311, 319 and 321 end
  in \<^verbatim>\<open>\\n\<close> inside an ordinary string literal: a backslash and the letter \<^verbatim>\<open>n\<close>, no line
  break; only the closing line ends in a newline.  The header is written before the
  value is read as a string.
\<close>

definition values_header :: "int \<Rightarrow> string \<Rightarrow> string" where
  "values_header groupDepth key =
     spaces (2 * groupDepth) @ ''  '' @ key @ '' ( '' @ [backslash, CHR ''n'']"

fun values_rows :: "int \<Rightarrow> string list \<Rightarrow> string" where
  "values_rows groupDepth [] = []"
| "values_rows groupDepth [item] =
     spaces (4 * groupDepth) @ ''    '' @ py_strip item @ '' '' @ [backslash, CHR ''n'']"
| "values_rows groupDepth (item # rest) =
     spaces (4 * groupDepth) @ ''    '' @ py_strip item @ '', '' @ [backslash, CHR ''n'']
       @ values_rows groupDepth rest"

definition write_values :: "int \<Rightarrow> string \<Rightarrow> string \<Rightarrow> string" where
  "write_values groupDepth key v =
     (let valueString = filter (\<lambda>c. c \<noteq> CHR ''('' \<and> c \<noteq> CHR '')'') v;
          valueString = re_sub quote_comma_re ([dquote] @ ''#'' @ [dquote]) valueString;
          valuesList = split_on CHR ''#'' valueString
      in values_header groupDepth key
         @ values_rows groupDepth valuesList
         @ spaces (2 * groupDepth) @ ''  );'' @ [newline])"

text \<open>
  The \<^verbatim>\<open>table\<close> branch (lines 323 to 333): here too the first line and the lines
  between end in a backslash and the letter \<^verbatim>\<open>n\<close>, the last one in a newline.
\<close>

fun table_rows :: "string list \<Rightarrow> string" where
  "table_rows [] = []"
| "table_rows [item] = item @ [dquote] @ '';'' @ [newline]"
| "table_rows (item # rest) = item @ '', '' @ [backslash, CHR ''n''] @ table_rows rest"

definition write_table :: "int \<Rightarrow> string \<Rightarrow> string \<Rightarrow> string" where
  "write_table groupDepth key v =
     (let valueString = filter (\<lambda>c. c \<noteq> dquote) v;
          valueList = map py_strip (split_on CHR '','' valueString)
      in spaces (2 * groupDepth) @ ''  '' @ key @ '' : '' @ [dquote] @ hd valueList @ '', ''
           @ [backslash, CHR ''n'']
         @ table_rows (tl valueList))"

text \<open>
  What a sequence of statements wrote to the file: the text, and the exception that
  ended the sequence, if one did.  The text written before an exception stays written.
\<close>

type_synonym writes = "string \<times> error option"

definition wrote :: "string \<Rightarrow> writes" where
  "wrote t = (t, None)"

definition raises :: "error \<Rightarrow> writes" where
  "raises e = ([], Some e)"

fun written :: "writes list \<Rightarrow> writes" where
  "written [] = ([], None)"
| "written ((t, Some e) # ws) = (t, Some e)"
| "written ((t, None) # ws) = (case written ws of (u, r) \<Rightarrow> (t @ u, r))"

text \<open>The last two branches (lines 334 to 347): a list value, and any other value.\<close>

fun write_item :: "int \<Rightarrow> string \<Rightarrow> pyatom \<Rightarrow> writes" where
  "write_item groupDepth key (PStr item) =
     wrote (if matches paren_re item then
              (if key = ''define''
               then spaces (2 * groupDepth) @ ''  '' @ key @ item @ '';'' @ [newline]
               else spaces (2 * groupDepth) @ ''  '' @ key @ '' '' @ item @ '';'' @ [newline])
            else spaces (2 * groupDepth) @ ''  '' @ key @ '' : '' @ item @ '';'' @ [newline])"
| "write_item groupDepth key _ = raises TypeError"

definition write_scalar :: "int \<Rightarrow> string \<Rightarrow> pyatom \<Rightarrow> string" where
  "write_scalar groupDepth key a =
     (let v = py_str (Scalar a) in
      if matches paren_re v
      then spaces (2 * groupDepth) @ ''  '' @ key @ '' '' @ v @ '';'' @ [newline]
      else spaces (2 * groupDepth) @ ''  '' @ key @ '' : '' @ v @ '';'' @ [newline])"

text \<open>
  \<^verbatim>\<open>_restoreLib\<close>: what the call for one group writes.  The first argument bounds the
  depth of the recursion, as the interpreter's recursion limit does.
\<close>

fun restoreLib_rec :: "nat \<Rightarrow> pydict list \<Rightarrow> pydict \<Rightarrow> writes" where
  "restoreLib_rec 0 gl groupDic = raises RecursionError"
| "restoreLib_rec (Suc fuel) gl groupDic =
     (case (map_of groupDic ''depth'', map_of groupDic ''type'', map_of groupDic ''name'') of
        (Some depthv, Some groupType, Some groupName) \<Rightarrow>
          (case depthv of
             Scalar (PInt groupDepth) \<Rightarrow>
               written
                 ([wrote (spaces groupDepth @ py_str groupType @ '' ('' @ py_str groupName @ '') {''
                          @ [newline])]
                  @ map (\<lambda>(key, v).
                      if key \<in> {''fatherGroupNum'', ''depth'', ''type'', ''name''} then wrote []
                      else if key = ''group'' then
                        (case iter_value v of
                           Inl e \<Rightarrow> raises e
                         | Inr xs \<Rightarrow>
                             written (map (\<lambda>a. case a of
                                              PRef i \<Rightarrow> restoreLib_rec fuel gl (gl ! i)
                                            | _ \<Rightarrow> raises TypeError) xs))
                      else if key = ''values'' then
                        (case v of Scalar (PStr t) \<Rightarrow> wrote (write_values groupDepth key t)
                         | _ \<Rightarrow> (values_header groupDepth key, Some TypeError))
                      else if key = ''table'' then
                        (case v of Scalar (PStr t) \<Rightarrow> wrote (write_table groupDepth key t)
                         | _ \<Rightarrow> raises AttributeError)
                      else
                        (case v of
                           PList xs \<Rightarrow> written (map (write_item groupDepth key) xs)
                         | Scalar a \<Rightarrow> wrote (write_scalar groupDepth key a)))
                    groupDic
                  @ [wrote (spaces groupDepth @ ''}'' @ [newline])])
           | _ \<Rightarrow> raises TypeError)
      | _ \<Rightarrow> raises KeyError)"

section \<open>Files\<close>

text \<open>
  The file system maps a path to the text of the file, as Python's text mode reads and
  writes it (newlines are the single character); the diagnostic stream is the list of
  the lines printed to it.  Debug messages go to the standard output when the parser
  is built with \<^verbatim>\<open>debug\<close> set, and are not modelled.  When a call raises, the model keeps
  the exception together with what the call printed and wrote before it.
\<close>

record world =
  files :: "(string \<times> string) list"
  stderr :: "string list"

text \<open>\<^verbatim>\<open>readlines\<close>: the lines of a text, each with its newline.\<close>

fun readlines :: "string \<Rightarrow> string list" where
  "readlines [] = []"
| "readlines (c # cs) =
     (if c = newline then [c] # readlines cs
      else (case readlines cs of [] \<Rightarrow> [[c]] | l # ls \<Rightarrow> (c # l) # ls))"

definition eprint :: "string list \<Rightarrow> world \<Rightarrow> world" where
  "eprint msgs w = w\<lparr>stderr := stderr w @ msgs\<rparr>"

definition write_file :: "string \<Rightarrow> string \<Rightarrow> world \<Rightarrow> world" where
  "write_file path content w = w\<lparr>files := AList.update path content (files w)\<rparr>"

section \<open>The cell subsetter\<close>

definition cell_re :: regex where
  \<comment> \<open>\<^verbatim>\<open>^\s*cell\s*\((.*?)\)\s*{\s*$\<close>\<close>
  "cell_re = [RStar CSpace, ROne (CLit CHR ''c''), ROne (CLit CHR ''e''), ROne (CLit CHR ''l''),
     ROne (CLit CHR ''l''), RStar CSpace, ROne (CLit CHR ''(''), ROpen, RLazy CDot, RClose,
     ROne (CLit CHR '')''), RStar CSpace, ROne (CLit CHR ''{''), RStar CSpace, REol]"

definition scan_comment_start_re :: regex where
  \<comment> \<open>\<^verbatim>\<open>^\s*/\*\<close>\<close>
  "scan_comment_start_re = [RStar CSpace, ROne (CLit CHR ''/''), ROne (CLit CHR ''*'')]"

definition scan_comment_end_re :: regex where
  \<comment> \<open>\<^verbatim>\<open>\*/\s*$\<close>\<close>
  "scan_comment_end_re = [ROne (CLit CHR ''*''), ROne (CLit CHR ''/''), RStar CSpace, REol]"

definition unquote :: "string \<Rightarrow> string" where
  "unquote cell_name =
     (if cell_name \<noteq> [] \<and> hd cell_name = dquote \<and> last cell_name = dquote
      then butlast (tl cell_name) else cell_name)"

text \<open>
  The scan of lines 76 to 93: \<open>i\<close> is the number of the line, \<open>in_comment\<close> the flag and
  \<open>cell_locations\<close> the ordered dictionary of the cells found so far.
\<close>

fun scan :: "nat \<Rightarrow> bool \<Rightarrow> (string \<times> nat) list \<Rightarrow> string list \<Rightarrow> (string \<times> nat) list" where
  "scan i in_comment cell_locations [] = cell_locations"
| "scan i in_comment cell_locations (line # rest) =
     (if in_comment then
        scan (i + 1) (\<not> searches scan_comment_end_re line) cell_locations rest
      else if matches scan_comment_start_re line then
        scan (i + 1) (\<not> searches scan_comment_end_re line) cell_locations rest
      else
        (case re_match cell_re line of
           Some (ms, _) \<Rightarrow>
             scan (i + 1) False
               (AList.update (unquote (py_strip (group_of line ms 1))) i cell_locations) rest
         | None \<Rightarrow> scan (i + 1) False cell_locations rest))"

definition missing_msg :: "string \<Rightarrow> string \<Rightarrow> string" where
  "missing_msg libFile cell =
     ''*Error*: cell '' @ [dquote] @ cell @ [dquote] @ '' is not in liberty file '' @ [dquote]
       @ libFile @ [dquote] @ ''.''"

text \<open>\<^verbatim>\<open>list.index\<close> of an element of the list.\<close>

fun index_of :: "'a \<Rightarrow> 'a list \<Rightarrow> nat" where
  "index_of x [] = 0"
| "index_of x (y # ys) = (if x = y then 0 else Suc (index_of x ys))"

definition the_loc :: "(string \<times> nat) list \<Rightarrow> string \<Rightarrow> nat" where
  "the_loc cell_locations cell = (case map_of cell_locations cell of Some n \<Rightarrow> n | None \<Rightarrow> 0)"

text \<open>The lines written for one requested cell (lines 115 to 126).\<close>

definition cell_part :: "string list \<Rightarrow> (string \<times> nat) list \<Rightarrow> string \<Rightarrow> string list" where
  "cell_part all_lines cell_locations cell =
     (let all_cells_in_file = map fst cell_locations;
          cell_start_line = the_loc cell_locations cell;
          cell_index = index_of cell all_cells_in_file
      in if cell_index = length all_cells_in_file - 1
         then drop (cell_start_line - 1) all_lines
         else (let next_cell = all_cells_in_file ! (cell_index + 1);
                   cell_end_line = the_loc cell_locations next_cell
               in drop (cell_start_line - 1) (take (cell_end_line - 1) all_lines)))"

text \<open>The lines of the reduced file (lines 107 to 129), for requested cells that all exist.\<close>

definition reduced_lines :: "string list \<Rightarrow> (string \<times> nat) list \<Rightarrow> string list \<Rightarrow> string list" where
  "reduced_lines all_lines cell_locations cellList =
     (let first_cell_line_num = snd (hd cell_locations)
      in take (first_cell_line_num - 1) all_lines
         @ concat (map (cell_part all_lines cell_locations) cellList)
         @ [''}'' @ [newline]])"

definition genCellLibFile :: "world \<Rightarrow> string \<Rightarrow> string list \<Rightarrow> (error + string) \<times> world" where
  "genCellLibFile w libFile cellList =
     (let cellLibFile = libFile @ ''.'' @ join ''_'' cellList in
      case map_of (files w) libFile of
        None \<Rightarrow> (Inl FileNotFoundError, w)
      | Some content \<Rightarrow>
          (let all_lines = readlines content;
               cell_locations = scan 1 False [] all_lines;
               all_cells_in_file = map fst cell_locations;
               missing_cells = filter (\<lambda>cell. cell \<notin> set all_cells_in_file) cellList
           in if missing_cells \<noteq> [] then
                (Inl (SysExit 1), eprint (map (missing_msg libFile) missing_cells) w)
              else if all_cells_in_file = [] then
                (Inl IndexError, write_file cellLibFile [] w)
              else
                (Inr cellLibFile,
                 write_file cellLibFile
                   (concat (reduced_lines all_lines cell_locations cellList)) w)))"

section \<open>The parser object\<close>

text \<open>
  \<^verbatim>\<open>__init__\<close>: the parser object is its \<^verbatim>\<open>libDic\<close>, the store returned by
  \<^verbatim>\<open>organizeData\<close> with the root group at index 0.  What the parse printed is on the
  diagnostic stream whether it returned or raised.
\<close>

definition no_file_msg :: "string \<Rightarrow> string" where
  "no_file_msg libFile =
     ''*Error*: liberty file '' @ [dquote] @ libFile @ [dquote] @ '': No such file!''"

definition parse_file :: "world \<Rightarrow> string \<Rightarrow> (error + pydict list) \<times> world" where
  "parse_file w libFile =
     (case map_of (files w) libFile of
        None \<Rightarrow> (Inl FileNotFoundError, w)
      | Some content \<Rightarrow>
          (case libertyParser (readlines content) of
             Inl (e, msgs) \<Rightarrow> (Inl e, eprint msgs w)
           | Inr (flat, msgs) \<Rightarrow> (organizeData flat, eprint msgs w)))"

definition init :: "world \<Rightarrow> string \<Rightarrow> string list \<Rightarrow> (error + pydict list) \<times> world" where
  "init w libFile cellList =
     (if map_of (files w) libFile = None then (Inl (SysExit 1), eprint [no_file_msg libFile] w)
      else if cellList \<noteq> [] then
        (case genCellLibFile w libFile cellList of
           (Inl e, w') \<Rightarrow> (Inl e, w')
         | (Inr cellLibFile, w') \<Rightarrow> parse_file w' cellLibFile)
      else parse_file w libFile)"

text \<open>
  \<^verbatim>\<open>restoreLib\<close> opens the file for writing and writes the text of the root group to it;
  when the writing raises, the file holds what was written until then.
\<close>

definition restoreLib :: "nat \<Rightarrow> pydict list \<Rightarrow> world \<Rightarrow> string \<Rightarrow> (error + unit) \<times> world" where
  "restoreLib limit gl w libFile =
     (case restoreLib_rec limit gl (gl ! 0) of
        (content, r) \<Rightarrow>
          ((case r of None \<Rightarrow> Inr () | Some e \<Rightarrow> Inl e), write_file libFile content w))"

section \<open>Notions the properties are stated with\<close>

text \<open>
  The line the chain of patterns sees in an iteration, if any: none inside a comment,
  on a continuation line, or when an open continuation is discarded; the joined line
  when a continuation ends.
\<close>

definition logical_line :: "pstate \<Rightarrow> string \<Rightarrow> string option" where
  "logical_line s line =
     (if commentMark s then None
      else (case re_match multilines_re line of
              Some _ \<Rightarrow> None
            | None \<Rightarrow>
                if multiLinesString s \<noteq> [] then
                  (case re_match multilines_done_re line of
                     Some (ms, _) \<Rightarrow> Some (multiLinesString s @ group_of line ms 1)
                   | None \<Rightarrow> None)
                else Some line))"

text \<open>
  The group an attribute line writes to, the effect of a classified line on the
  dictionary of that group, and the key it sets.
\<close>

definition target :: "pstate \<Rightarrow> nat option" where
  "target s = py_index (groupList s) (lastOpenedGroupNum s)"

fun effect_of :: "line_class \<Rightarrow> pydict \<Rightarrow> pydict" where
  "effect_of (ComplexAttr key v) = add_complex key v"
| "effect_of (SimpleAttr key v) = add_simple key v"
| "effect_of (SpecialComplexAttr key v) = add_complex key v"
| "effect_of (SpecialSimpleAttr key v) = add_simple key v"
| "effect_of _ = id"

fun key_of :: "line_class \<Rightarrow> string option" where
  "key_of (ComplexAttr key v) = Some key"
| "key_of (SimpleAttr key v) = Some key"
| "key_of (SpecialComplexAttr key v) = Some key"
| "key_of (SpecialSimpleAttr key v) = Some key"
| "key_of _ = None"

text \<open>
  \<open>touches s lines g\<close> are the attribute lines of the group at index \<open>g\<close>, classified and
  in source order: the lines that the parse from state \<open>s\<close> hands to the chain of patterns
  as attributes while \<open>g\<close> is the group they are written to.
\<close>

definition touch :: "pstate \<Rightarrow> string \<Rightarrow> nat \<Rightarrow> line_class list" where
  "touch s line g =
     (case logical_line s line of
        None \<Rightarrow> []
      | Some t \<Rightarrow> if key_of (classify t) \<noteq> None \<and> target s = Some g then [classify t] else [])"

fun touches :: "pstate \<Rightarrow> string list \<Rightarrow> nat \<Rightarrow> line_class list" where
  "touches s [] g = []"
| "touches s (line # rest) g =
     (case step s line of Inl e \<Rightarrow> [] | Inr s' \<Rightarrow> touch s line g @ touches s' rest g)"

text \<open>
  \<open>declared s lines\<close> are the group declarations in source order: the record made at
  every line that the parse from state \<open>s\<close> takes for a group-open line.
\<close>

definition declares :: "pstate \<Rightarrow> string \<Rightarrow> pydict list" where
  "declares s line =
     (case logical_line s line of
        None \<Rightarrow> []
      | Some t \<Rightarrow>
          (case classify t of
             GroupOpen groupDepth groupType groupName \<Rightarrow>
               [new_group (getLastOpenedGroupNum (openedGroupNumList s)) groupDepth groupType groupName]
           | _ \<Rightarrow> []))"

fun declared :: "pstate \<Rightarrow> string list \<Rightarrow> pydict list" where
  "declared s [] = []"
| "declared s (line # rest) =
     (case step s line of Inl e \<Rightarrow> [] | Inr s' \<Rightarrow> declares s line @ declared s' rest)"

text \<open>The stack of open groups holds indices of the flat list.\<close>

definition stack_ok :: "pstate \<Rightarrow> bool" where
  "stack_ok s = (list_all (\<lambda>x. x < length (groupList s)) (openedGroupNumList s)
     \<and> groupListNum s = length (groupList s))"

text \<open>
  The value an attribute line gives to a key, when the line is an occurrence of the key;
  the values of all occurrences of a key among classified lines, in order; the lines
  that set a key as a simple attribute; and the lines from the last of these on (all
  the lines when there is none).
\<close>

fun value_of :: "string \<Rightarrow> line_class \<Rightarrow> string option" where
  "value_of key (ComplexAttr k v) = (if k = key then Some v else None)"
| "value_of key (SimpleAttr k v) = (if k = key then Some v else None)"
| "value_of key (SpecialComplexAttr k v) = (if k = key then Some v else None)"
| "value_of key (SpecialSimpleAttr k v) = (if k = key then Some v else None)"
| "value_of key _ = None"

definition occurrences :: "string \<Rightarrow> line_class list \<Rightarrow> string list" where
  "occurrences key cs = List.map_filter (value_of key) cs"






text \<open>
  What \<^verbatim>\<open>organizeData\<close> is expected to build.  \<open>kids_from gl k p\<close> are the indices from \<open>k\<close>
  on whose record names \<open>p\<close> as its father, in increasing order; the flat list is appended
  to at every group-open line, so increasing index is declaration order.
  \<open>organized_from gl k\<close> is the flat list in which every record has received, under
  \<^verbatim>\<open>group\<close>, its children of index \<open>k\<close> or more.
\<close>

definition has_father :: "pydict list \<Rightarrow> nat \<Rightarrow> nat \<Rightarrow> bool" where
  "has_father gl p i = (map_of (gl ! i) ''fatherGroupNum'' = Some (Scalar (PInt (int p))))"

definition kids_from :: "pydict list \<Rightarrow> nat \<Rightarrow> nat \<Rightarrow> nat list" where
  "kids_from gl k p = filter (has_father gl p) [k..<length gl]"

definition group_entry :: "nat list \<Rightarrow> pydict" where
  "group_entry ks = (if ks = [] then [] else [(''group'', PList (map PRef ks))])"

definition organized_from :: "pydict list \<Rightarrow> nat \<Rightarrow> pydict list" where
  "organized_from gl k = map (\<lambda>p. gl ! p @ group_entry (kids_from gl k p)) [0..<length gl]"

text \<open>
  The condition on a flat list under which the backward pass builds that: every record
  but the first names as its father \<open>-1\<close> or an earlier index, the first record and the
  records that are named as a father have no entry \<^verbatim>\<open>group\<close> yet, and every record has
  a name.
\<close>

definition record_ok :: "pydict list \<Rightarrow> nat \<Rightarrow> bool" where
  "record_ok gl i =
     ((0 < i \<longrightarrow>
         (case map_of (gl ! i) ''fatherGroupNum'' of
            Some (Scalar (PInt f)) \<Rightarrow> - 1 \<le> f \<and> f < int i
          | _ \<Rightarrow> False))
      \<and> (i = 0 \<or> kids_from gl (Suc 0) i \<noteq> [] \<longrightarrow> map_of (gl ! i) ''group'' = None)
      \<and> map_of (gl ! i) ''name'' \<noteq> None)"

definition flat_ok :: "pydict list \<Rightarrow> bool" where
  "flat_ok gl = list_all (record_ok gl) [0..<length gl]"

definition cell_names_of :: "pydict list \<Rightarrow> nat list \<Rightarrow> pyval list" where
  "cell_names_of gl ks =
     map (\<lambda>i. case map_of (gl ! i) ''name'' of Some n \<Rightarrow> n | None \<Rightarrow> Scalar (PStr []))
       (filter (\<lambda>i. is_cell (gl ! i)) ks)"

text \<open>
  The attribute lines that could spoil the tree.  The backward pass reads
  \<^verbatim>\<open>fatherGroupNum\<close> of every record but the first, and \<^verbatim>\<open>group\<close> of every record that
  is named as a father; \<^verbatim>\<open>getCellList\<close> reads \<^verbatim>\<open>group\<close> of the first record, and
  \<^verbatim>\<open>type\<close> and \<^verbatim>\<open>name\<close> of the groups declared in the first group.  \<open>tree_keys_kept\<close>:
  no attribute line named \<^verbatim>\<open>fatherGroupNum\<close> is written to a group other than the first,
  and none named \<^verbatim>\<open>group\<close> to the first group or to a group in which a group is
  declared.  \<open>cell_keys_kept\<close>: no attribute line named \<^verbatim>\<open>type\<close> or \<^verbatim>\<open>name\<close> is written
  to a group declared in the first group.
\<close>

definition tree_keys_kept :: "string list \<Rightarrow> bool" where
  "tree_keys_kept lines =
     (let decls = declared init_state lines in
      list_all (\<lambda>g. list_all (\<lambda>c.
                   (key_of c = Some ''fatherGroupNum'' \<longrightarrow> g = 0)
                   \<and> (key_of c = Some ''group'' \<longrightarrow> 0 < g \<and> kids_from decls (Suc 0) g = []))
                  (touches init_state lines g))
        [0..<length decls])"

definition cell_keys_kept :: "string list \<Rightarrow> bool" where
  "cell_keys_kept lines =
     list_all (\<lambda>g. list_all (\<lambda>c. key_of c \<noteq> Some ''type'' \<and> key_of c \<noteq> Some ''name'')
                  (touches init_state lines g))
       (kids_from (declared init_state lines) (Suc 0) 0)"

text \<open>
  A file whose library has three cells, the first of them with two pins around a memory
  group that has an attribute \<^verbatim>\<open>type\<close>; the groups it declares; and the flat list of its
  parse.
\<close>

definition demo_lines :: "string list" where
  "demo_lines =
     [''/* demo */\<newline>'',
      ''library (L) {\<newline>'',
      ''  time_unit : 1ns;\<newline>'',
      ''  cell (A) {\<newline>'',
      ''    area : 1;\<newline>'',
      ''    pin (P1) {\<newline>'',
      ''      direction : input;\<newline>'',
      ''    }\<newline>'',
      ''    memory () {\<newline>'',
      ''      type : ram;\<newline>'',
      ''    }\<newline>'',
      ''\<newline>'',
      ''    pin (P2) {\<newline>'',
      ''    }\<newline>'',
      ''    cell_footprint : inv;\<newline>'',
      ''  }\<newline>'',
      ''  cell (B) {\<newline>'',
      ''  }\<newline>'',
      ''  cell (C) {\<newline>'',
      ''  }\<newline>'',
      ''}\<newline>'']"

definition demo_decls :: "pydict list" where
  "demo_decls =
     [new_group (- 1) 0 ''library'' ''L'',
      new_group 0 2 ''cell'' ''A'',
      new_group 1 4 ''pin'' ''P1'',
      new_group 1 4 ''memory'' [],
      new_group 1 4 ''pin'' ''P2'',
      new_group 0 2 ''cell'' ''B'',
      new_group 0 2 ''cell'' ''C'']"

definition demo_flat :: "pydict list" where
  "demo_flat =
     [new_group (- 1) 0 ''library'' ''L'' @ [(''time_unit'', Scalar (PStr ''1ns''))],
      new_group 0 2 ''cell'' ''A''
        @ [(''area'', Scalar (PStr ''1'')), (''cell_footprint'', Scalar (PStr ''inv''))],
      new_group 1 4 ''pin'' ''P1'' @ [(''direction'', Scalar (PStr ''input''))],
      add_simple ''type'' ''ram'' (new_group 1 4 ''memory'' []),
      new_group 1 4 ''pin'' ''P2'',
      new_group 0 2 ''cell'' ''B'',
      new_group 0 2 ''cell'' ''C'']"

text \<open>
  Four files with an attribute line named like a key of the tree: \<^verbatim>\<open>name\<close> and \<^verbatim>\<open>type\<close>
  in a cell, \<^verbatim>\<open>fatherGroupNum\<close> in a cell, and \<^verbatim>\<open>group\<close> in the library.
\<close>

definition name_in_cell :: "string list" where
  "name_in_cell =
     [''library (L) {\<newline>'',
      ''  cell (A) {\<newline>'',
      ''    name : Z;\<newline>'',
      ''  }\<newline>'',
      ''  cell (B) {\<newline>'',
      ''  }\<newline>'',
      ''}\<newline>'']"

definition type_in_cell :: "string list" where
  "type_in_cell =
     [''library (L) {\<newline>'',
      ''  cell (A) {\<newline>'',
      ''    type : ram;\<newline>'',
      ''  }\<newline>'',
      ''  cell (B) {\<newline>'',
      ''  }\<newline>'',
      ''}\<newline>'']"

definition father_in_cell :: "string list" where
  "father_in_cell =
     [''library (L) {\<newline>'',
      ''  cell (A) {\<newline>'',
      ''    fatherGroupNum : 0;\<newline>'',
      ''  }\<newline>'',
      ''  cell (B) {\<newline>'',
      ''  }\<newline>'',
      ''}\<newline>'']"

definition group_in_library :: "string list" where
  "group_in_library =
     [''library (L) {\<newline>'',
      ''  group (x);\<newline>'',
      ''  cell (A) {\<newline>'',
      ''  }\<newline>'',
      ''  cell (B) {\<newline>'',
      ''  }\<newline>'',
      ''}\<newline>'']"

text \<open>The cell names the scan of a text records, in first-seen order.\<close>

definition recorded :: "string \<Rightarrow> string list" where
  "recorded content = map fst (scan 1 False [] (readlines content))"

text \<open>A library of two cells, in a file system that holds nothing else.\<close>

definition two_cells :: string where
  "two_cells = concat
     [''library (L) {\<newline>'',
      ''  cell (A) {\<newline>'',
      ''    area : 1;\<newline>'',
      ''  }\<newline>'',
      ''  cell (B) {\<newline>'',
      ''  }\<newline>'',
      ''}\<newline>'']"

definition two_cells_world :: world where
  "two_cells_world = \<lparr>files = [(''f.lib'', two_cells)], stderr = []\<rparr>"

text \<open>
  The range of a requested cell in the words of the specification: from its recorded
  line to just before the next strictly later recorded line, or to the end of the file
  when no recorded line is later.
\<close>

definition later_lines :: "(string \<times> nat) list \<Rightarrow> nat \<Rightarrow> nat list" where
  "later_lines cell_locations start = filter (\<lambda>l. start < l) (map snd cell_locations)"

definition spec_range :: "string list \<Rightarrow> (string \<times> nat) list \<Rightarrow> string \<Rightarrow> string list" where
  "spec_range all_lines cell_locations cell =
     (let start = the_loc cell_locations cell;
          later = later_lines cell_locations start
      in if later = [] then drop (start - 1) all_lines
         else drop (start - 1) (take (Min (set later) - 1) all_lines))"

text \<open>A file that declares the cell \<^verbatim>\<open>A\<close> twice, and one of a hundred lines with cells at lines 10, 40 and 70.\<close>

definition dup_lines :: "string list" where
  "dup_lines =
     [''library (L) {\<newline>'',
      ''  cell (A) {\<newline>'',
      ''  }\<newline>'',
      ''  cell (B) {\<newline>'',
      ''  }\<newline>'',
      ''  cell (A) {\<newline>'',
      ''  }\<newline>'',
      ''}\<newline>'']"

definition hundred_lines :: "string list" where
  "hundred_lines =
     replicate 9 [newline] @ [''cell (A) {\<newline>''] @ replicate 29 [newline]
     @ [''cell (B) {\<newline>''] @ replicate 29 [newline]
     @ [''cell (C) {\<newline>''] @ replicate 30 [newline]"

definition hundred_world :: world where
  "hundred_world = \<lparr>files = [(''big.lib'', concat hundred_lines)], stderr = []\<rparr>"

text \<open>A plain line does not end in the continuation marker.\<close>

definition plain_line :: "string \<Rightarrow> bool" where
  "plain_line line = (re_match multilines_re line = None)"

text \<open>The state after the line \<^verbatim>\<open>library (L) {\<close>.\<close>

definition in_library :: pstate where
  "in_library = \<lparr>multiLinesString = [], commentMark = False,
     groupList = [new_group (- 1) 0 ''library'' ''L''], groupListNum = 1,
     openedGroupNumList = [0], lastOpenedGroupNum = 0, libFileLine = 1, printed = []\<rparr>"




text \<open>The cell list of the parser built from the lines of a file.\<close>

definition cell_list_of :: "string list \<Rightarrow> error + pyval list" where
  "cell_list_of lines =
     (case libertyParser lines of
        Inl (e, msgs) \<Rightarrow> Inl e
      | Inr (flat, msgs) \<Rightarrow> (case organizeData flat of Inl e \<Rightarrow> Inl e | Inr gl \<Rightarrow> getCellList gl))"

text \<open>
  Example files: one that ends with two groups open, with the state of the parser at its
  end; one whose comment starts behind an attribute; the body of a comment and the lines
  after it.
\<close>

definition open_at_eof :: "string list" where
  "open_at_eof = [''library (L) {\<newline>'', ''  cell (A) {\<newline>'', ''    area : 1;\<newline>'']"

definition open_at_eof_state :: pstate where
  "open_at_eof_state = \<lparr>multiLinesString = [], commentMark = False,
     groupList = [new_group (- 1) 0 ''library'' ''L'',
                  new_group 0 2 ''cell'' ''A'' @ [(''area'', Scalar (PStr ''1''))]],
     groupListNum = 2, openedGroupNumList = [0, 1], lastOpenedGroupNum = 1, libFileLine = 3,
     printed = []\<rparr>"

definition fake_midline :: "string list" where
  "fake_midline =
     [''library (L) {\<newline>'',
      ''  foo : 1; /* old cells\<newline>'',
      ''  cell (FAKE) {\<newline>'',
      ''  }\<newline>'',
      ''  end of old cells */\<newline>'',
      ''}\<newline>'']"

definition fake_body :: "string list" where
  "fake_body = [''  cell (FAKE) {\<newline>'', ''  }\<newline>'']"

definition after_comment :: "string list" where
  "after_comment = [''  cell (REAL) {\<newline>'', ''  }\<newline>'', ''}\<newline>'']"

definition commented_out :: "string list" where
  "commented_out =
     ''  /* old cells\<newline>'' # fake_body @ ''  end of old cells */\<newline>'' # after_comment"

text \<open>
  The minimal library, one statement per line, the store its parse builds, and the text
  \<^verbatim>\<open>restoreLib\<close> writes for it.
\<close>

definition minimal_lib :: string where
  "minimal_lib = concat
     [''library (L) {\<newline>'',
      ''  cell (INV) {\<newline>'',
      ''    area : 1;\<newline>'',
      ''    pin (A) {\<newline>'',
      ''    }\<newline>'',
      ''  }\<newline>'',
      ''}\<newline>'']"

definition minimal_world :: world where
  "minimal_world = \<lparr>files = [(''min.lib'', minimal_lib)], stderr = []\<rparr>"

definition minimal_store :: "pydict list" where
  "minimal_store =
     [new_group (- 1) 0 ''library'' ''L'' @ [(''group'', PList [PRef 1])],
      new_group 0 2 ''cell'' ''INV'' @ [(''area'', Scalar (PStr ''1'')), (''group'', PList [PRef 2])],
      new_group 1 4 ''pin'' ''A'']"

definition restored_lib :: string where
  "restored_lib = concat
     [''library (L) {\<newline>'',
      ''  cell (INV) {\<newline>'',
      ''      area : 1;\<newline>'',
      ''    pin (A) {\<newline>'',
      ''    }\<newline>'',
      ''  }\<newline>'',
      ''}\<newline>'']"

text \<open>The store of the library of two cells.\<close>

definition two_cells_store :: "pydict list" where
  "two_cells_store =
     [new_group (- 1) 0 ''library'' ''L'' @ [(''group'', PList [PRef 1, PRef 2])],
      new_group 0 2 ''cell'' ''A'' @ [(''area'', Scalar (PStr ''1''))],
      new_group 0 2 ''cell'' ''B'']"

section \<open>Properties\<close>

lemma map_sum_id_Inl [simp]: "(map_sum id f x = Inl e) = (x = Inl e)"
  by (cases x) auto

lemma map_sum_id_Inr [simp]: "(map_sum id f x = Inr b) = (\<exists>a. x = Inr a \<and> b = f a)"
  by (cases x) auto

subsection \<open>The only exception of the parse is the index error\<close>

lemma on_last_opened_error: "on_last_opened f s = Inl e \<Longrightarrow> fst e = IndexError"
  by (auto simp: on_last_opened_def split: option.splits)

lemma act_error: "act t s = Inl e \<Longrightarrow> fst e = IndexError"
  by (auto simp: act_def Let_def dest: on_last_opened_error split: line_class.splits if_splits)

lemma step_error: "step s l = Inl e \<Longrightarrow> fst e = IndexError"
  by (auto simp: step_def Let_def dest: act_error split: option.splits if_splits)

lemma run_error: "run s ls = Inl e \<Longrightarrow> fst e = IndexError"
  by (induction ls arbitrary: s) (auto dest: step_error split: sum.splits)

subsection \<open>Dictionaries\<close>

lemma update_absent: "map_of d k = None \<Longrightarrow> AList.update k v d = d @ [(k, v)]"
  by (induction d) (auto split: if_splits)

lemma update_last: "map_of d k = None \<Longrightarrow> AList.update k v (d @ [(k, u)]) = d @ [(k, v)]"
  by (induction d) (auto split: if_splits)

lemma map_of_append_absent: "map_of d k = None \<Longrightarrow> map_of (d @ e) k = map_of e k"
  by (induction d) (auto split: if_splits)

lemma map_of_append_present: "map_of d k = Some v \<Longrightarrow> map_of (d @ e) k = Some v"
  by (induction d) (auto split: if_splits)

lemma map_of_add_complex:
  "map_of (add_complex k v d) key =
     (if k = key then
        Some (case map_of d key of
                None \<Rightarrow> Scalar (PStr v)
              | Some (Scalar a) \<Rightarrow> PList [a, PStr v]
              | Some (PList xs) \<Rightarrow> PList (xs @ [PStr v]))
      else map_of d key)"
  by (auto simp: add_complex_def update_conv' split: option.splits pyval.splits)

lemma map_of_add_simple:
  "map_of (add_simple k v d) key = (if k = key then Some (Scalar (PStr v)) else map_of d key)"
  by (simp add: add_simple_def update_conv')

subsection \<open>The flat list is the declarations with their attributes\<close>

lemma py_index_less: "py_index xs i = Some g \<Longrightarrow> g < length xs"
  by (auto simp: py_index_def Let_def split: if_splits)

lemma step_None:
  assumes "logical_line s l = None" and "step s l = Inr s'"
  shows "groupList s' = groupList s \<and> openedGroupNumList s' = openedGroupNumList s
    \<and> groupListNum s' = groupListNum s \<and> lastOpenedGroupNum s' = lastOpenedGroupNum s"
  using assms
  by (auto simp: step_def Let_def logical_line_def split: option.splits if_splits)

lemma step_Some:
  "logical_line s l = Some t \<Longrightarrow>
   step s l = map_sum id clear_multi (act t (s\<lparr>libFileLine := libFileLine s + 1\<rparr>))"
  by (auto simp: step_def Let_def logical_line_def split: option.splits if_splits)

lemma act_old:
  assumes "act t s = Inr s'" and "g < length (groupList s)"
  shows "groupList s' ! g =
     (if key_of (classify t) \<noteq> None \<and> target s = Some g
      then effect_of (classify t) (groupList s ! g) else groupList s ! g)"
  using assms
  by (cases "classify t")
    (auto simp: act_def Let_def on_last_opened_def target_def nth_append
      split: option.splits if_splits)

lemma act_length:
  assumes "act t s = Inr s'"
  shows "length (groupList s') =
     length (groupList s) + (case classify t of GroupOpen d ty nm \<Rightarrow> 1 | _ \<Rightarrow> 0)"
  using assms
  by (cases "classify t")
    (auto simp: act_def Let_def on_last_opened_def split: option.splits if_splits)

lemma act_new:
  assumes "act t s = Inr s'" and "classify t = GroupOpen d ty nm"
  shows "groupList s' ! length (groupList s) =
     new_group (getLastOpenedGroupNum (openedGroupNumList s)) d ty nm"
  using assms by (auto simp: act_def Let_def)

lemma step_trace_length:
  assumes "step s l = Inr s'"
  shows "length (groupList s') = length (groupList s) + length (declares s l)"
proof (cases "logical_line s l")
  case None
  with assms step_None [OF None assms] show ?thesis by (simp add: declares_def)
next
  case (Some t)
  with assms obtain a where a: "act t (s\<lparr>libFileLine := libFileLine s + 1\<rparr>) = Inr a"
    and s': "s' = clear_multi a" by (auto simp: step_Some)
  from act_length [OF a] s' Some show ?thesis
    by (auto simp: declares_def clear_multi_def split: line_class.splits)
qed

lemma step_trace_old:
  assumes "step s l = Inr s'" and "g < length (groupList s)"
  shows "groupList s' ! g = fold effect_of (touch s l g) (groupList s ! g)"
proof (cases "logical_line s l")
  case None
  with assms step_None [OF None assms(1)] show ?thesis by (simp add: touch_def)
next
  case (Some t)
  with assms obtain a where a: "act t (s\<lparr>libFileLine := libFileLine s + 1\<rparr>) = Inr a"
    and s': "s' = clear_multi a" by (auto simp: step_Some)
  from act_old [OF a, of g] assms(2) s' Some show ?thesis
    by (auto simp: touch_def clear_multi_def target_def)
qed

lemma step_trace_new:
  assumes "step s l = Inr s'" and "j < length (declares s l)"
  shows "groupList s' ! (length (groupList s) + j) = declares s l ! j"
proof (cases "logical_line s l")
  case None
  with assms show ?thesis by (simp add: declares_def)
next
  case (Some t)
  with assms obtain a where a: "act t (s\<lparr>libFileLine := libFileLine s + 1\<rparr>) = Inr a"
    and s': "s' = clear_multi a" by (auto simp: step_Some)
  from assms(2) Some obtain d ty nm where c: "classify t = GroupOpen d ty nm" and j: "j = 0"
    by (auto simp: declares_def split: line_class.splits)
  from act_new [OF a c] s' Some c j show ?thesis
    by (simp add: declares_def clear_multi_def)
qed

lemma touch_outside: "length (groupList s) \<le> g \<Longrightarrow> touch s l g = []"
  by (auto simp: touch_def target_def split: option.splits dest: py_index_less)

lemma run_trace:
  assumes "run s ls = Inr s'"
  shows "length (groupList s') = length (groupList s) + length (declared s ls)
    \<and> (\<forall>g < length (groupList s).
          groupList s' ! g = fold effect_of (touches s ls g) (groupList s ! g))
    \<and> (\<forall>j < length (declared s ls).
          groupList s' ! (length (groupList s) + j)
            = fold effect_of (touches s ls (length (groupList s) + j)) (declared s ls ! j))"
  using assms
proof (induction ls arbitrary: s)
  case Nil
  then show ?case by simp
next
  case (Cons l ls)
  from Cons.prems obtain s1 where st: "step s l = Inr s1" and r: "run s1 ls = Inr s'"
    by (auto split: sum.splits)
  note IH = Cons.IH [OF r]
  note len1 = step_trace_length [OF st]
  have A: "length (groupList s') = length (groupList s) + length (declared s (l # ls))"
    using IH len1 st by simp
  have B: "groupList s' ! g = fold effect_of (touches s (l # ls) g) (groupList s ! g)"
    if g: "g < length (groupList s)" for g
  proof -
    from g len1 have "g < length (groupList s1)" by simp
    with IH have "groupList s' ! g = fold effect_of (touches s1 ls g) (groupList s1 ! g)" by simp
    with step_trace_old [OF st g] st show ?thesis by simp
  qed
  have C: "groupList s' ! (length (groupList s) + j)
      = fold effect_of (touches s (l # ls) (length (groupList s) + j)) (declared s (l # ls) ! j)"
    if j: "j < length (declared s (l # ls))" for j
  proof (cases "j < length (declares s l)")
    case True
    with len1 have "length (groupList s) + j < length (groupList s1)" by simp
    with IH have "groupList s' ! (length (groupList s) + j)
        = fold effect_of (touches s1 ls (length (groupList s) + j)) (groupList s1 ! (length (groupList s) + j))"
      by simp
    with step_trace_new [OF st True] True st show ?thesis
      by (simp add: touch_outside nth_append)
  next
    case False
    define k where "k = j - length (declares s l)"
    from False have jk: "j = length (declares s l) + k" by (simp add: k_def)
    from j st jk have k: "k < length (declared s1 ls)" by simp
    with IH have "groupList s' ! (length (groupList s1) + k)
        = fold effect_of (touches s1 ls (length (groupList s1) + k)) (declared s1 ls ! k)"
      by simp
    with st len1 jk show ?thesis
      by (simp add: touch_outside nth_append add.assoc)
  qed
  from A B C show ?case by blast
qed

lemma step_stack_ok:
  assumes "stack_ok s" and "step s l = Inr s'"
  shows "stack_ok s'"
proof (cases "logical_line s l")
  case None
  with step_None [OF None assms(2)] assms(1) show ?thesis by (simp add: stack_ok_def)
next
  case (Some t)
  with assms obtain a where a: "act t (s\<lparr>libFileLine := libFileLine s + 1\<rparr>) = Inr a"
    and s': "s' = clear_multi a" by (auto simp: step_Some)
  from a assms(1) have "stack_ok a"
    by (cases "classify t")
      (auto simp: act_def Let_def on_last_opened_def stack_ok_def list_all_iff less_Suc_eq
        split: option.splits if_splits dest!: in_set_butlastD)
  with s' show ?thesis by (simp add: stack_ok_def clear_multi_def)
qed

lemma getLast_bound:
  "list_all (\<lambda>x. x < n) opened \<Longrightarrow>
   - 1 \<le> getLastOpenedGroupNum opened \<and> getLastOpenedGroupNum opened < int n"
  by (auto simp: getLastOpenedGroupNum_def list_all_iff)

lemma declares_father:
  assumes "stack_ok s" and "j < length (declares s l)"
  shows "\<exists>f dp ty nm. declares s l ! j = new_group f dp ty nm \<and> - 1 \<le> f
    \<and> f < int (length (groupList s))"
  using assms getLast_bound [of "length (groupList s)" "openedGroupNumList s"]
  by (auto simp: declares_def stack_ok_def split: option.splits line_class.splits)

lemma declared_father:
  assumes "stack_ok s" and "j < length (declared s ls)"
  shows "\<exists>f dp ty nm. declared s ls ! j = new_group f dp ty nm \<and> - 1 \<le> f
    \<and> f < int (length (groupList s) + j)"
  using assms
proof (induction ls arbitrary: s j)
  case Nil
  then show ?case by simp
next
  case (Cons l ls)
  from Cons.prems(2) obtain s1 where st: "step s l = Inr s1"
    by (auto split: sum.splits)
  from step_stack_ok [OF Cons.prems(1) st] have ok1: "stack_ok s1" .
  note len1 = step_trace_length [OF st]
  show ?case
  proof (cases "j < length (declares s l)")
    case True
    from declares_father [OF Cons.prems(1) True] obtain f dp ty nm where
      "declares s l ! j = new_group f dp ty nm" "- 1 \<le> f" "f < int (length (groupList s))"
      by blast
    with True st have "declared s (l # ls) ! j = new_group f dp ty nm \<and> - 1 \<le> f
        \<and> f < int (length (groupList s) + j)"
      by (simp add: nth_append)
    then show ?thesis by blast
  next
    case False
    define k where "k = j - length (declares s l)"
    from False have jk: "j = length (declares s l) + k" by (simp add: k_def)
    from Cons.prems(2) st jk have k: "k < length (declared s1 ls)" by simp
    from Cons.IH [OF ok1 k] obtain f dp ty nm where
      "declared s1 ls ! k = new_group f dp ty nm" "- 1 \<le> f" "f < int (length (groupList s1) + k)"
      by blast
    with st jk len1 have "declared s (l # ls) ! j = new_group f dp ty nm \<and> - 1 \<le> f
        \<and> f < int (length (groupList s) + j)"
      by (simp add: nth_append add.assoc)
    then show ?thesis by blast
  qed
qed

lemma map_of_effect_other:
  "key_of c \<noteq> Some k \<Longrightarrow> map_of (effect_of c d) k = map_of d k"
  by (cases c) (auto simp: map_of_add_complex map_of_add_simple)

lemma map_of_fold_other:
  "\<forall>c \<in> set cs. key_of c \<noteq> Some k \<Longrightarrow> map_of (fold effect_of cs d) k = map_of d k"
  by (induction cs arbitrary: d) (simp_all add: map_of_effect_other)

lemma init_stack_ok: "stack_ok init_state"
  by (simp add: stack_ok_def init_state_def)

text \<open>Every record of the flat list is its declaration followed by its attribute lines.\<close>

lemma parser_records:
  assumes "libertyParser lines = Inr (gl, msgs)"
  shows "length gl = length (declared init_state lines)"
    and "g < length gl \<Longrightarrow>
      gl ! g = fold effect_of (touches init_state lines g) (declared init_state lines ! g)"
    and "g < length gl \<Longrightarrow>
      \<exists>f dp ty nm. declared init_state lines ! g = new_group f dp ty nm \<and> - 1 \<le> f \<and> f < int g"
proof -
  from assms obtain s where r: "run init_state lines = Inr s" and gl: "gl = groupList s"
    by (auto simp: libertyParser_def split: sum.splits)
  note t = run_trace [OF r]
  from t gl show len: "length gl = length (declared init_state lines)"
    by (simp add: init_state_def)
  {
    assume g: "g < length gl"
    with len t gl show "gl ! g = fold effect_of (touches init_state lines g) (declared init_state lines ! g)"
      by (simp add: init_state_def)
    from g len declared_father [OF init_stack_ok, of g lines]
    show "\<exists>f dp ty nm. declared init_state lines ! g = new_group f dp ty nm \<and> - 1 \<le> f \<and> f < int g"
      by (simp add: init_state_def)
  }
qed

subsection \<open>A file with no group\<close>

lemma organizeData_empty: "organizeData [] = Inl IndexError"
  by (simp add: organizeData_def)

text \<open>
  C10.  When the file exists and no line of it is parsed as a group-open line (an empty
  file, or one of comments and blank lines only), building the parser with no cell list
  gives neither a diagnostic exit nor an empty model: it raises \<^verbatim>\<open>IndexError\<close>.  Either
  the flat list is still empty when \<^verbatim>\<open>organizeData\<close> reads \<^verbatim>\<open>groupList[0]\<close>, or an
  attribute or closing line has raised the same exception before.
\<close>

theorem no_group_IndexError:
  assumes "map_of (files w) libFile = Some content"
    and "declared init_state (readlines content) = []"
  shows "fst (init w libFile []) = Inl IndexError"
proof (cases "run init_state (readlines content)")
  case (Inl e)
  then have "fst e = IndexError" by (rule run_error)
  with Inl assms(1) show ?thesis
    by (cases e) (simp add: init_def parse_file_def libertyParser_def)
next
  case (Inr s)
  from run_trace [OF Inr] assms(2) have "groupList s = []" by (simp add: init_state_def)
  with Inr assms(1) show ?thesis
    by (simp add: init_def parse_file_def libertyParser_def organizeData_empty)
qed

theorem no_group_IndexError_witness:
  "map_of (files \<lparr>files = [(''e.lib'', ''/* no group here */'' @ [newline, newline])], stderr = []\<rparr>)
     ''e.lib'' = Some (''/* no group here */'' @ [newline, newline])
   \<and> declared init_state (readlines (''/* no group here */'' @ [newline, newline])) = []
   \<and> fst (init \<lparr>files = [(''e.lib'', ''/* no group here */'' @ [newline, newline])], stderr = []\<rparr>
        ''e.lib'' []) = Inl IndexError"
proof -
  have f: "map_of (files \<lparr>files = [(''e.lib'', ''/* no group here */'' @ [newline, newline])],
      stderr = []\<rparr>) ''e.lib'' = Some (''/* no group here */'' @ [newline, newline])"
    by simp
  have n: "declared init_state (readlines (''/* no group here */'' @ [newline, newline])) = []"
    by code_simp
  from f n no_group_IndexError [OF f n] show ?thesis by blast
qed

subsection \<open>The tree keeps the declaration order\<close>

lemma map_of_effect_present:
  "map_of d k \<noteq> None \<Longrightarrow> map_of (effect_of c d) k \<noteq> None"
  by (cases c) (auto simp: map_of_add_complex map_of_add_simple)

lemma map_of_fold_present:
  "map_of d k \<noteq> None \<Longrightarrow> map_of (fold effect_of cs d) k \<noteq> None"
  by (induction cs arbitrary: d) (simp_all add: map_of_effect_present del: not_None_eq)

lemma map_of_group_entry_other: "k \<noteq> ''group'' \<Longrightarrow> map_of (d @ group_entry ks) k = map_of d k"
  by (cases "map_of d k")
    (auto simp: group_entry_def map_of_append_absent map_of_append_present simp del: map_of_append)

lemma flat_okD: "flat_ok gl \<Longrightarrow> i < length gl \<Longrightarrow> record_ok gl i"
  by (simp add: flat_ok_def list_all_iff)

lemma kids_from_step:
  "i < length gl \<Longrightarrow> kids_from gl i p = (if has_father gl p i then [i] else []) @ kids_from gl (Suc i) p"
  by (simp add: kids_from_def upt_conv_Cons)

lemma kids_from_member:
  "has_father gl p i \<Longrightarrow> 0 < i \<Longrightarrow> i < length gl \<Longrightarrow> kids_from gl (Suc 0) p \<noteq> []"
proof -
  assume "has_father gl p i" "0 < i" "i < length gl"
  then have "i \<in> set (kids_from gl (Suc 0) p)" by (simp add: kids_from_def)
  then show ?thesis by auto
qed

lemma length_organized_from [simp]: "length (organized_from gl k) = length gl"
  by (simp add: organized_from_def)

lemma nth_organized_from:
  "p < length gl \<Longrightarrow> organized_from gl k ! p = gl ! p @ group_entry (kids_from gl k p)"
  by (simp add: organized_from_def)

lemma insert_front:
  assumes "map_of d ''group'' = None"
  shows "(let e = setdefault ''group'' (PList []) (d @ group_entry ks) in
          case map_of e ''group'' of
            Some (PList xs) \<Rightarrow> Inr (AList.update ''group'' (PList (PRef i # xs)) e)
          | _ \<Rightarrow> Inl AttributeError) = (Inr (d @ group_entry (i # ks)) :: error + pydict)"
proof (cases "ks = []")
  case True
  then show ?thesis using assms
    by (simp add: group_entry_def setdefault_def update_absent update_last map_of_append_absent
        del: map_of_append)
next
  case False
  then show ?thesis using assms
    by (simp add: group_entry_def setdefault_def update_last map_of_append_absent
        del: map_of_append)
qed

lemma organize_one_step:
  assumes ok: "flat_ok gl" and i: "i < length gl" and pos: "0 < i"
  shows "organize_one i (organized_from gl (Suc i)) = Inr (organized_from gl i)"
proof -
  from ok i have r: "record_ok gl i" by (rule flat_okD)
  with pos obtain f where f: "map_of (gl ! i) ''fatherGroupNum'' = Some (Scalar (PInt f))"
    and lo: "- 1 \<le> f" and hi: "f < int i"
    by (auto simp: record_ok_def split: option.splits pyval.splits pyatom.splits)
  have look: "map_of (organized_from gl (Suc i) ! i) ''fatherGroupNum'' = Some (Scalar (PInt f))"
    using i f by (simp add: nth_organized_from map_of_group_entry_other)
  show ?thesis
  proof (cases "f = - 1")
    case True
    have "kids_from gl i p = kids_from gl (Suc i) p" for p
      using i f True by (simp add: kids_from_step has_father_def)
    then have "organized_from gl i = organized_from gl (Suc i)"
      by (simp add: organized_from_def)
    with look True show ?thesis by (simp add: organize_one_def)
  next
    case False
    define p where "p = nat f"
    from False lo hi have fp: "f = int p" and pi: "p < i" by (auto simp: p_def)
    from pi i have pn: "p < length gl" by simp
    have hf: "has_father gl q i = (q = p)" for q
      using f fp by (auto simp: has_father_def)
    from hf have "has_father gl p i" by simp
    from kids_from_member [OF this pos i] have parent: "kids_from gl (Suc 0) p \<noteq> []" .
    from ok pn have "record_ok gl p" by (rule flat_okD)
    with parent have nog: "map_of (gl ! p) ''group'' = None" by (simp add: record_ok_def)
    have idx: "py_index (organized_from gl (Suc i)) f = Some p"
      using fp pn by (simp add: py_index_def Let_def)
    have upd: "(organized_from gl (Suc i))[p := gl ! p @ group_entry (i # kids_from gl (Suc i) p)]
        = organized_from gl i"
    proof (rule nth_equalityI)
      show "length ((organized_from gl (Suc i))[p := gl ! p @ group_entry (i # kids_from gl (Suc i) p)])
          = length (organized_from gl i)" by simp
    next
      fix q assume "q < length ((organized_from gl (Suc i))[p := gl ! p @ group_entry (i # kids_from gl (Suc i) p)])"
      then have qn: "q < length gl" by simp
      show "(organized_from gl (Suc i))[p := gl ! p @ group_entry (i # kids_from gl (Suc i) p)] ! q
          = organized_from gl i ! q"
        using qn pn i by (cases "q = p") (simp_all add: nth_organized_from kids_from_step hf)
    qed
    have "organize_one i (organized_from gl (Suc i)) =
        (let e = setdefault ''group'' (PList []) (gl ! p @ group_entry (kids_from gl (Suc i) p)) in
          case map_of e ''group'' of
            Some (PList xs) \<Rightarrow> Inr ((organized_from gl (Suc i))[p := AList.update ''group'' (PList (PRef i # xs)) e])
          | _ \<Rightarrow> Inl AttributeError)"
      using look False idx pn by (simp add: organize_one_def nth_organized_from)
    also have "\<dots> = Inr ((organized_from gl (Suc i))[p := gl ! p @ group_entry (i # kids_from gl (Suc i) p)])"
      using insert_front [OF nog, of "kids_from gl (Suc i) p" i]
      by (auto simp: Let_def split: option.splits pyval.splits)
    finally show ?thesis by (simp add: upd)
  qed
qed

lemma organize_from_all:
  "flat_ok gl \<Longrightarrow> k < length gl \<Longrightarrow>
   organize_from k (organized_from gl (Suc k)) = Inr (organized_from gl (Suc 0))"
proof (induction k)
  case 0
  then show ?case by simp
next
  case (Suc k)
  then show ?case by (simp add: organize_one_step)
qed

lemma organized_from_end: "organized_from gl (length gl) = gl"
  by (simp add: organized_from_def kids_from_def group_entry_def map_nth)

lemma organizeData_organized:
  assumes "flat_ok gl" and "gl \<noteq> []"
  shows "organizeData gl = Inr (organized_from gl (Suc 0))"
proof -
  from assms(2) have n: "length gl - 1 < length gl" "Suc (length gl - 1) = length gl" by (cases gl; simp)+
  from organize_from_all [OF assms(1) n(1)] n(2) have
    "organize_from (length gl - 1) gl = Inr (organized_from gl (Suc 0))"
    by (simp add: organized_from_end)
  moreover from assms(2) have "organized_from gl (Suc 0) \<noteq> []"
    by (simp add: organized_from_def)
  ultimately show ?thesis by (simp add: organizeData_def)
qed

lemma is_cell_organized: "is_cell (d @ group_entry ks) = is_cell d"
  by (simp add: is_cell_def map_of_group_entry_other del: map_of_append)

lemma cell_names_organized:
  assumes "flat_ok gl" and "set ks \<subseteq> {..<length gl}"
  shows "cell_names (organized_from gl k) (map PRef ks) = Inr (cell_names_of gl ks)"
  using assms(2)
proof (induction ks)
  case Nil
  then show ?case by (simp add: cell_names_of_def)
next
  case (Cons i ks)
  then have i: "i < length gl" by simp
  with assms(1) have "record_ok gl i" by (rule flat_okD)
  then obtain n where n: "map_of (gl ! i) ''name'' = Some n" by (auto simp: record_ok_def)
  from Cons have IH: "cell_names (organized_from gl k) (map PRef ks) = Inr (cell_names_of gl ks)"
    by simp
  show ?case using i n IH
    by (simp add: nth_organized_from is_cell_organized map_of_group_entry_other cell_names_of_def)
qed

lemma getCellList_organized:
  assumes "flat_ok gl" and "gl \<noteq> []"
  shows "getCellList (organized_from gl (Suc 0)) = Inr (cell_names_of gl (kids_from gl (Suc 0) 0))"
proof -
  from assms(2) have z: "0 < length gl" by simp
  with assms(1) have "record_ok gl 0" by (rule flat_okD)
  then have nog: "map_of (gl ! 0) ''group'' = None" by (simp add: record_ok_def)
  have sub: "set (kids_from gl (Suc 0) 0) \<subseteq> {..<length gl}" by (auto simp: kids_from_def)
  show ?thesis
  proof (cases "kids_from gl (Suc 0) 0 = []")
    case True
    then show ?thesis using z nog
      by (simp add: getCellList_def nth_organized_from group_entry_def cell_names_of_def)
  next
    case False
    then show ?thesis using z nog cell_names_organized [OF assms(1) sub, of "Suc 0"]
      by (simp add: getCellList_def nth_organized_from group_entry_def map_of_append_absent
          iter_value_def del: map_of_append)
  qed
qed

lemma kids_from_cong:
  assumes "length gl = length dl"
    and "\<And>g. k \<le> g \<Longrightarrow> g < length gl \<Longrightarrow>
           map_of (gl ! g) ''fatherGroupNum'' = map_of (dl ! g) ''fatherGroupNum''"
  shows "kids_from gl k p = kids_from dl k p"
  unfolding kids_from_def using assms
  by (intro filter_cong) (auto simp: has_father_def)

lemma cell_names_of_cong:
  assumes "\<And>g. g \<in> set ks \<Longrightarrow> map_of (gl ! g) ''type'' = map_of (dl ! g) ''type''"
    and "\<And>g. g \<in> set ks \<Longrightarrow> map_of (gl ! g) ''name'' = map_of (dl ! g) ''name''"
  shows "cell_names_of gl ks = cell_names_of dl ks"
  using assms
proof (induction ks)
  case Nil
  then show ?case by (simp add: cell_names_of_def)
next
  case (Cons i ks)
  then have "cell_names_of gl ks = cell_names_of dl ks" by simp
  with Cons.prems [of i] show ?case by (simp add: cell_names_of_def is_cell_def)
qed

text \<open>
  The flat list of a parse meets the conditions of these lemmas, and every record but the
  first keeps the father of its declaration, when the attribute lines leave the keys
  alone that the backward pass reads.
\<close>

lemma parser_flat_ok:
  assumes p: "libertyParser lines = Inr (gl, msgs)" and k: "tree_keys_kept lines"
  shows "flat_ok gl"
    and "kids_from gl (Suc 0) q = kids_from (declared init_state lines) (Suc 0) q"
proof -
  note len = parser_records(1) [OF p]
  have keys: "\<forall>c \<in> set (touches init_state lines g).
      (key_of c = Some ''fatherGroupNum'' \<longrightarrow> g = 0)
      \<and> (key_of c = Some ''group'' \<longrightarrow> 0 < g \<and> kids_from (declared init_state lines) (Suc 0) g = [])"
    if g: "g < length gl" for g
    using k g len by (simp add: tree_keys_kept_def Let_def list_all_iff)
  have father: "map_of (gl ! g) ''fatherGroupNum'' = map_of (declared init_state lines ! g) ''fatherGroupNum''"
    if g: "g < length gl" and pos: "0 < g" for g
  proof -
    from keys [OF g] pos have "\<forall>c \<in> set (touches init_state lines g). key_of c \<noteq> Some ''fatherGroupNum''"
      by auto
    with parser_records(2) [OF p g] show ?thesis by (simp add: map_of_fold_other)
  qed
  show kids: "kids_from gl (Suc 0) q = kids_from (declared init_state lines) (Suc 0) q" for q
    using len father by (intro kids_from_cong) simp_all
  have "record_ok gl g" if g: "g < length gl" for g
  proof -
    from parser_records(3) [OF p g] obtain f dp ty nm where
      d: "declared init_state lines ! g = new_group f dp ty nm" and f: "- 1 \<le> f" "f < int g"
      by blast
    from d have "map_of (declared init_state lines ! g) ''name'' \<noteq> None" by (simp add: new_group_def)
    then have "map_of (fold effect_of (touches init_state lines g) (declared init_state lines ! g)) ''name'' \<noteq> None"
      by (rule map_of_fold_present)
    with parser_records(2) [OF p g] have name: "map_of (gl ! g) ''name'' \<noteq> None" by simp
    have grp: "map_of (gl ! g) ''group'' = None" if "g = 0 \<or> kids_from gl (Suc 0) g \<noteq> []"
    proof -
      from that keys [OF g] have "\<forall>c \<in> set (touches init_state lines g). key_of c \<noteq> Some ''group''"
        by (auto simp: kids)
      with parser_records(2) [OF p g] d show ?thesis by (simp add: map_of_fold_other new_group_def)
    qed
    from father [OF g] d f have "0 < g \<Longrightarrow> map_of (gl ! g) ''fatherGroupNum'' = Some (Scalar (PInt f))"
      by (simp add: new_group_def)
    with f name grp show ?thesis by (auto simp: record_ok_def)
  qed
  then show "flat_ok gl" by (simp add: flat_ok_def list_all_iff)
qed

text \<open>
  C7, as stated, fails: a record holds the keys of the tree and the attributes of its
  group in one dictionary, so an attribute line named like a key of the tree changes
  what the tree is built from.  With \<^verbatim>\<open>name : Z;\<close> in the cell \<^verbatim>\<open>A\<close> the cell list is
  \<^verbatim>\<open>Z\<close>, \<^verbatim>\<open>B\<close>, and with \<^verbatim>\<open>type : ram;\<close> there it is \<^verbatim>\<open>B\<close> alone, although the cells
  declared are \<^verbatim>\<open>A\<close> and \<^verbatim>\<open>B\<close>; with \<^verbatim>\<open>fatherGroupNum : 0;\<close> in a cell
  \<^verbatim>\<open>organizeData\<close> raises \<^verbatim>\<open>TypeError\<close>, and with \<^verbatim>\<open>group (x);\<close> in the library it raises
  \<^verbatim>\<open>AttributeError\<close>, so that no child list is built.
\<close>

theorem attribute_named_like_tree_key_counterexample:
  "cell_list_of name_in_cell = Inr [Scalar (PStr ''Z''), Scalar (PStr ''B'')]
   \<and> cell_list_of type_in_cell = Inr [Scalar (PStr ''B'')]
   \<and> cell_list_of father_in_cell = Inl TypeError
   \<and> cell_list_of group_in_library = Inl AttributeError"
  by code_simp

text \<open>
  C7, amended.  Let the parse of a file succeed with at least one group, and let no
  attribute line named \<^verbatim>\<open>fatherGroupNum\<close> be written to a group other than the first, and
  none named \<^verbatim>\<open>group\<close> to the first group or to a group in which a group is declared.
  Then the backward pass of \<^verbatim>\<open>organizeData\<close> succeeds and leaves every record as the
  parse made it, followed, when groups were declared with it as father, by the entry
  \<^verbatim>\<open>group\<close> with the references to these groups in the order of their declarations,
  however many they are; and \<^verbatim>\<open>getCellList\<close> returns, in the order of their
  declarations, the stored names of the groups declared in the first group whose
  stored type is \<^verbatim>\<open>cell\<close>.  These are the declared names of the cells declared there
  when, in addition, no attribute line named \<^verbatim>\<open>type\<close> or \<^verbatim>\<open>name\<close> is written to a group
  declared in the first group; an attribute \<^verbatim>\<open>type\<close> of a deeper group, such as a memory
  group of a cell, changes nothing of this.
\<close>

theorem children_in_declaration_order:
  assumes "libertyParser lines = Inr (gl, msgs)" and "gl \<noteq> []" and "tree_keys_kept lines"
  shows "organizeData gl = Inr (organized_from gl (Suc 0))
    \<and> (\<forall>p<length gl. organized_from gl (Suc 0) ! p
          = gl ! p @ group_entry (kids_from (declared init_state lines) (Suc 0) p))
    \<and> getCellList (organized_from gl (Suc 0))
        = Inr (cell_names_of gl (kids_from (declared init_state lines) (Suc 0) 0))
    \<and> (cell_keys_kept lines \<longrightarrow>
         getCellList (organized_from gl (Suc 0))
           = Inr (cell_names_of (declared init_state lines)
                    (kids_from (declared init_state lines) (Suc 0) 0)))"
proof -
  note ok = parser_flat_ok(1) [OF assms(1,3)]
  note kids = parser_flat_ok(2) [OF assms(1,3)]
  note len = parser_records(1) [OF assms(1)]
  from getCellList_organized [OF ok assms(2)]
  have cells: "getCellList (organized_from gl (Suc 0))
        = Inr (cell_names_of gl (kids_from (declared init_state lines) (Suc 0) 0))"
    by (simp add: kids)
  have names: "cell_names_of gl (kids_from (declared init_state lines) (Suc 0) 0)
      = cell_names_of (declared init_state lines) (kids_from (declared init_state lines) (Suc 0) 0)"
    if c: "cell_keys_kept lines"
  proof (rule cell_names_of_cong)
    fix g assume g: "g \<in> set (kids_from (declared init_state lines) (Suc 0) 0)"
    then have gl: "g < length gl" using len by (simp add: kids_from_def)
    from c g have "\<forall>c \<in> set (touches init_state lines g).
        key_of c \<noteq> Some ''type'' \<and> key_of c \<noteq> Some ''name''"
      by (simp add: cell_keys_kept_def list_all_iff)
    with parser_records(2) [OF assms(1) gl]
    show "map_of (gl ! g) ''type'' = map_of (declared init_state lines ! g) ''type''"
      and "map_of (gl ! g) ''name'' = map_of (declared init_state lines ! g) ''name''"
      by (simp_all add: map_of_fold_other)
  qed
  from organizeData_organized [OF ok assms(2)] cells names
  show ?thesis by (simp add: nth_organized_from kids)
qed

theorem children_in_declaration_order_witness:
  "libertyParser demo_lines = Inr (demo_flat, [])
   \<and> demo_flat \<noteq> [] \<and> tree_keys_kept demo_lines \<and> cell_keys_kept demo_lines
   \<and> declared init_state demo_lines = demo_decls
   \<and> organizeData demo_flat = Inr (organized_from demo_flat (Suc 0))
   \<and> organized_from demo_flat (Suc 0) ! 1
       = demo_flat ! 1 @ [(''group'', PList [PRef 2, PRef 3, PRef 4])]
   \<and> map_of (demo_flat ! 3) ''type'' = Some (Scalar (PStr ''ram''))
   \<and> getCellList (organized_from demo_flat (Suc 0))
       = Inr [Scalar (PStr ''A''), Scalar (PStr ''B''), Scalar (PStr ''C'')]"
proof -
  have p: "libertyParser demo_lines = Inr (demo_flat, [])" by code_simp
  have ne: "demo_flat \<noteq> []" by code_simp
  have d: "declared init_state demo_lines = demo_decls" by code_simp
  have k: "tree_keys_kept demo_lines" unfolding tree_keys_kept_def Let_def d by code_simp
  have ck: "cell_keys_kept demo_lines" unfolding cell_keys_kept_def d by code_simp
  have k1: "group_entry (kids_from demo_decls (Suc 0) 1) = [(''group'', PList [PRef 2, PRef 3, PRef 4])]"
    by code_simp
  have k0: "cell_names_of demo_decls (kids_from demo_decls (Suc 0) 0)
      = [Scalar (PStr ''A''), Scalar (PStr ''B''), Scalar (PStr ''C'')]"
    by code_simp
  have len: "1 < length demo_flat" by code_simp
  have ty: "map_of (demo_flat ! 3) ''type'' = Some (Scalar (PStr ''ram''))" by code_simp
  note t = children_in_declaration_order [OF p ne k, unfolded d]
  from t have o: "organizeData demo_flat = Inr (organized_from demo_flat (Suc 0))" by blast
  from t len have "organized_from demo_flat (Suc 0) ! 1
       = demo_flat ! 1 @ group_entry (kids_from demo_decls (Suc 0) 1)" by blast
  then have c: "organized_from demo_flat (Suc 0) ! 1
       = demo_flat ! 1 @ [(''group'', PList [PRef 2, PRef 3, PRef 4])]"
    by (simp only: k1)
  from t ck have "getCellList (organized_from demo_flat (Suc 0))
       = Inr (cell_names_of demo_decls (kids_from demo_decls (Suc 0) 0))" by blast
  then have g: "getCellList (organized_from demo_flat (Suc 0))
       = Inr [Scalar (PStr ''A''), Scalar (PStr ''B''), Scalar (PStr ''C'')]"
    by (simp only: k0)
  show ?thesis by (intro conjI) (rule p ne k ck d o c ty g)+
qed

subsection \<open>An attribute outside any group\<close>

text \<open>
  C2.  The attribute line that follows the closing brace of the only group is read with
  an empty stack.  The parse does not end in an error: \<^verbatim>\<open>groupList[-1]\<close> is the last
  group of the list, and the attribute is stored in the group that was closed.
\<close>

theorem attribute_outside_group_is_attached:
  "libertyParser [''library (L) {\<newline>'', ''}\<newline>'', ''foo : 1;\<newline>''] =
     Inr ([new_group (- 1) 0 ''library'' ''L'' @ [(''foo'', Scalar (PStr ''1''))]], [])"
  by code_simp

subsection \<open>Requested cells that are not in the file\<close>

text \<open>
  C5.  When a requested cell is not among the cells the scan recorded,
  \<^verbatim>\<open>genCellLibFile\<close> prints one message for every missing name, in the order of the
  request, and exits with status 1; the file system is as before, so no reduced file
  exists.  Building the parser with such a cell list ends the same way.
\<close>

theorem missing_cells_fail_together:
  assumes "map_of (files w) libFile = Some content"
    and "\<exists>cell \<in> set cellList. cell \<notin> set (recorded content)"
  shows "genCellLibFile w libFile cellList =
      (Inl (SysExit 1),
       w\<lparr>stderr := stderr w
           @ map (missing_msg libFile) (filter (\<lambda>cell. cell \<notin> set (recorded content)) cellList)\<rparr>)
    \<and> files (snd (genCellLibFile w libFile cellList)) = files w
    \<and> init w libFile cellList =
      (Inl (SysExit 1),
       w\<lparr>stderr := stderr w
           @ map (missing_msg libFile) (filter (\<lambda>cell. cell \<notin> set (recorded content)) cellList)\<rparr>)"
proof -
  from assms(2) have m: "filter (\<lambda>cell. cell \<notin> set (recorded content)) cellList \<noteq> []"
    by (auto simp: filter_empty_conv)
  from assms(2) have ne: "cellList \<noteq> []" by auto
  have g: "genCellLibFile w libFile cellList =
      (Inl (SysExit 1),
       w\<lparr>stderr := stderr w
           @ map (missing_msg libFile) (filter (\<lambda>cell. cell \<notin> set (recorded content)) cellList)\<rparr>)"
    using assms(1) m by (simp add: genCellLibFile_def Let_def recorded_def eprint_def)
  show ?thesis using g assms(1) ne by (simp add: init_def)
qed

theorem missing_cells_fail_together_witness:
  "map_of (files two_cells_world) ''f.lib'' = Some two_cells
   \<and> (\<exists>cell \<in> set [''A'', ''C'', ''D'']. cell \<notin> set (recorded two_cells))
   \<and> genCellLibFile two_cells_world ''f.lib'' [''A'', ''C'', ''D''] =
       (Inl (SysExit 1),
        two_cells_world\<lparr>stderr := [missing_msg ''f.lib'' ''C'', missing_msg ''f.lib'' ''D'']\<rparr>)
   \<and> files (snd (genCellLibFile two_cells_world ''f.lib'' [''A'', ''C'', ''D'']))
       = [(''f.lib'', two_cells)]"
proof -
  have f: "map_of (files two_cells_world) ''f.lib'' = Some two_cells"
    by (simp add: two_cells_world_def)
  have r: "recorded two_cells = [''A'', ''B'']" by code_simp
  have m: "\<exists>cell \<in> set [''A'', ''C'', ''D'']. cell \<notin> set (recorded two_cells)"
    by (simp add: r)
  from missing_cells_fail_together [OF f m] f m show ?thesis
    by (simp add: r two_cells_world_def)
qed

subsection \<open>The line ranges of the cell subsetter\<close>

lemma scan_distinct:
  "distinct (map fst locs) \<Longrightarrow> distinct (map fst (scan i c locs ls))"
  by (induction ls arbitrary: i c locs) (auto simp: distinct_update split: option.splits)

lemma index_of_less: "x \<in> set xs \<Longrightarrow> index_of x xs < length xs"
  by (induction xs) auto

lemma nth_index_of: "x \<in> set xs \<Longrightarrow> xs ! index_of x xs = x"
  by (induction xs) auto

lemma the_loc_nth:
  "distinct (map fst locs) \<Longrightarrow> j < length locs \<Longrightarrow> the_loc locs (map fst locs ! j) = snd (locs ! j)"
proof -
  assume d: "distinct (map fst locs)" and j: "j < length locs"
  then have "map_of locs (fst (locs ! j)) = Some (snd (locs ! j))"
    by (intro map_of_is_SomeI) auto
  with j show ?thesis by (simp add: the_loc_def)
qed

lemma filter_greater_sorted:
  "sorted_wrt (<) xs \<Longrightarrow> j < length xs \<Longrightarrow> filter (\<lambda>l. xs ! j < l) xs = drop (Suc j) (xs :: nat list)"
proof (induction xs arbitrary: j)
  case Nil
  then show ?case by simp
next
  case (Cons x xs)
  show ?case
  proof (cases j)
    case 0
    with Cons.prems show ?thesis by (auto simp: filter_id_conv)
  next
    case (Suc k)
    with Cons.prems have k: "k < length xs" and "\<forall>y\<in>set xs. x < y" and sx: "sorted_wrt (<) xs"
      by auto
    then have "x < xs ! k" by simp
    then have "\<not> xs ! k < x" by simp
    with Cons.IH [OF sx k] Suc show ?thesis by simp
  qed
qed

lemma Min_sorted: "sorted_wrt (<) xs \<Longrightarrow> xs \<noteq> [] \<Longrightarrow> Min (set xs) = hd (xs :: nat list)"
  by (cases xs) (auto intro!: Min_eqI dest: less_imp_le)

lemma cell_part_spec_range:
  assumes d: "distinct (map fst locs)" and s: "sorted_wrt (<) (map snd locs)"
    and c: "cell \<in> set (map fst locs)"
  shows "cell_part all_lines locs cell = spec_range all_lines locs cell"
proof -
  define j where "j = index_of cell (map fst locs)"
  from c have j: "j < length locs" and cj: "map fst locs ! j = cell"
    using index_of_less [of cell "map fst locs"] nth_index_of [of cell "map fst locs"]
    by (simp_all add: j_def)
  from the_loc_nth [OF d j] cj have start: "the_loc locs cell = snd (locs ! j)" by simp
  from j have sj: "snd (locs ! j) = map snd locs ! j" by simp
  have later: "later_lines locs (the_loc locs cell) = drop (Suc j) (map snd locs)"
    unfolding later_lines_def start sj using s j by (intro filter_greater_sorted) simp_all
  show ?thesis
  proof (cases "j = length locs - 1")
    case True
    with j have "drop (Suc j) (map snd locs) = []" by simp
    with True later show ?thesis
      by (simp add: cell_part_def spec_range_def Let_def j_def [symmetric])
  next
    case False
    with j have j1: "Suc j < length locs" by simp
    then have ne: "drop (Suc j) (map snd locs) \<noteq> []" by simp
    from s have "sorted_wrt (<) (drop (Suc j) (map snd locs))" by (rule sorted_wrt_drop)
    from Min_sorted [OF this ne] j1
    have m: "Min (set (drop (Suc j) (map snd locs))) = snd (locs ! Suc j)"
      by (simp add: hd_drop_conv_nth)
    from the_loc_nth [OF d j1] have nx: "the_loc locs (map fst locs ! Suc j) = snd (locs ! Suc j)" .
    from False later ne m nx show ?thesis
      by (simp add: cell_part_def spec_range_def Let_def j_def [symmetric])
  qed
qed

text \<open>
  C6, as stated, fails on a file that declares a cell name twice: the dictionary keeps
  the first position of the name and the last line, so the range of \<^verbatim>\<open>A\<close> ends at the
  line of \<^verbatim>\<open>B\<close>, which lies before its start, and is empty; the words of the claim give
  the lines from the recorded line of \<^verbatim>\<open>A\<close> to the end of the file.
\<close>

theorem range_of_redeclared_cell_counterexample:
  "scan 1 False [] dup_lines = [(''A'', 6), (''B'', 4)]
   \<and> cell_part dup_lines (scan 1 False [] dup_lines) ''A'' = []
   \<and> spec_range dup_lines (scan 1 False [] dup_lines) ''A''
       = [''  cell (A) {\<newline>'', ''  }\<newline>'', ''}\<newline>'']"
  by code_simp

text \<open>
  C6, amended.  For the cells the scan records: when they are three, at lines 10, 40
  and 70, requesting the second writes the lines 1 to 9, the lines 40 to 69 and a
  closing brace; for any request of recorded cells the reduced file is the header, the
  range of each requested cell in the order of the request, and a closing brace; and
  when the recorded lines increase in first-seen order (as they do when no cell name is
  declared twice), the range of a recorded cell is the one of the specification: it ends
  just before the next strictly later recorded line, or at the end of the file.
\<close>

theorem subsetter_ranges:
  assumes f: "map_of (files w) libFile = Some content"
    and al: "all_lines = readlines content"
    and lo: "locs = scan 1 False [] all_lines"
  shows "(locs = [(a, 10), (b, 40), (c, 70)] \<longrightarrow>
           genCellLibFile w libFile [b] =
             (Inr (libFile @ ''.'' @ b),
              write_file (libFile @ ''.'' @ b)
                (concat (take 9 all_lines @ drop 39 (take 69 all_lines) @ [''}'' @ [newline]])) w))
    \<and> (cellList \<noteq> [] \<and> set cellList \<subseteq> set (map fst locs) \<longrightarrow>
           genCellLibFile w libFile cellList =
             (Inr (libFile @ ''.'' @ join ''_'' cellList),
              write_file (libFile @ ''.'' @ join ''_'' cellList)
                (concat (take (snd (hd locs) - 1) all_lines
                         @ concat (map (cell_part all_lines locs) cellList)
                         @ [''}'' @ [newline]])) w))
    \<and> (sorted_wrt (<) (map snd locs) \<and> cell \<in> set (map fst locs) \<longrightarrow>
           cell_part all_lines locs cell = spec_range all_lines locs cell)"
proof (intro conjI impI)
  have d: "distinct (map fst locs)" unfolding lo by (rule scan_distinct) simp
  {
    assume sc: "locs = [(a, 10), (b, 40), (c, 70)]"
    with d have ne: "a \<noteq> b" "b \<noteq> c" "a \<noteq> c" by auto
    from sc lo al have "scan 1 False [] (readlines content) = [(a, 10), (b, 40), (c, 70)]" by simp
    with ne f show "genCellLibFile w libFile [b] =
             (Inr (libFile @ ''.'' @ b),
              write_file (libFile @ ''.'' @ b)
                (concat (take 9 all_lines @ drop 39 (take 69 all_lines) @ [''}'' @ [newline]])) w)"
      by (simp add: genCellLibFile_def Let_def reduced_lines_def cell_part_def the_loc_def al)
  }
  {
    assume a: "cellList \<noteq> [] \<and> set cellList \<subseteq> set (map fst locs)"
    then have m: "filter (\<lambda>cell. cell \<notin> set (map fst locs)) cellList = []"
      by (auto simp: filter_empty_conv)
    from a have "map fst locs \<noteq> []" by (cases cellList) auto
    with m f show "genCellLibFile w libFile cellList =
             (Inr (libFile @ ''.'' @ join ''_'' cellList),
              write_file (libFile @ ''.'' @ join ''_'' cellList)
                (concat (take (snd (hd locs) - 1) all_lines
                         @ concat (map (cell_part all_lines locs) cellList)
                         @ [''}'' @ [newline]])) w)"
      unfolding lo al by (simp add: genCellLibFile_def Let_def reduced_lines_def)
  }
  {
    assume "sorted_wrt (<) (map snd locs) \<and> cell \<in> set (map fst locs)"
    with d show "cell_part all_lines locs cell = spec_range all_lines locs cell"
      by (simp add: cell_part_spec_range)
  }
qed

theorem subsetter_ranges_witness:
  "map_of (files hundred_world) ''big.lib'' = Some (concat hundred_lines)
   \<and> hundred_lines = readlines (concat hundred_lines)
   \<and> scan 1 False [] hundred_lines = [(''A'', 10), (''B'', 40), (''C'', 70)]
   \<and> length hundred_lines = 100
   \<and> genCellLibFile hundred_world ''big.lib'' [''B''] =
       (Inr ''big.lib.B'',
        write_file ''big.lib.B''
          (concat (take 9 hundred_lines @ drop 39 (take 69 hundred_lines) @ [''}'' @ [newline]]))
          hundred_world)
   \<and> cell_part hundred_lines (scan 1 False [] hundred_lines) ''B''
       = spec_range hundred_lines (scan 1 False [] hundred_lines) ''B''"
proof -
  have f: "map_of (files hundred_world) ''big.lib'' = Some (concat hundred_lines)"
    by (simp add: hundred_world_def)
  have al: "hundred_lines = readlines (concat hundred_lines)" by code_simp
  have sc: "scan 1 False [] hundred_lines = [(''A'', 10), (''B'', 40), (''C'', 70)]" by code_simp
  have len: "length hundred_lines = 100" by code_simp
  have so: "sorted_wrt (<) (map snd (scan 1 False [] hundred_lines))
      \<and> ''B'' \<in> set (map fst (scan 1 False [] hundred_lines))"
    unfolding sc by simp
  note t = subsetter_ranges [OF f al refl, of "''A''" "''B''" "''C''" "[''B'']" "''B''"]
  from t sc have g: "genCellLibFile hundred_world ''big.lib'' [''B''] =
       (Inr ''big.lib.B'',
        write_file ''big.lib.B''
          (concat (take 9 hundred_lines @ drop 39 (take 69 hundred_lines) @ [''}'' @ [newline]]))
          hundred_world)"
    by simp
  from t so have r: "cell_part hundred_lines (scan 1 False [] hundred_lines) ''B''
       = spec_range hundred_lines (scan 1 False [] hundred_lines) ''B''"
    by blast
  show ?thesis by (intro conjI) (rule f al sc len g r)+
qed

subsection \<open>Repeated attribute keys\<close>

lemma occurrences_Nil [simp]: "occurrences key [] = []"
  by (simp add: occurrences_def map_filter_simps)













subsection \<open>Unbalanced braces\<close>

lemma run_append:
  "run s (xs @ ys) = (case run s xs of Inl e \<Rightarrow> Inl e | Inr s' \<Rightarrow> run s' ys)"
  by (induction xs arbitrary: s) (auto split: sum.splits)

lemma step_done:
  assumes "\<not> commentMark s" and "multiLinesString s = []" and "plain_line l"
    and "classify l = GroupDone" and "openedGroupNumList s \<noteq> []"
  shows "step s l = Inr (s\<lparr>libFileLine := libFileLine s + 1,
      openedGroupNumList := butlast (openedGroupNumList s),
      lastOpenedGroupNum := getLastOpenedGroupNum (butlast (openedGroupNumList s))\<rparr>)"
  using assms
  by (simp add: step_def Let_def plain_line_def act_def clear_multi_def)

lemma run_closes:
  assumes "\<not> commentMark s" and "multiLinesString s = []"
    and "\<forall>l \<in> set cl. plain_line l \<and> classify l = GroupDone"
    and "length cl \<le> length (openedGroupNumList s)"
  shows "\<exists>s'. run s cl = Inr s' \<and> groupList s' = groupList s \<and> printed s' = printed s"
  using assms
proof (induction cl arbitrary: s)
  case Nil
  then show ?case by simp
next
  case (Cons l cl)
  let ?s = "s\<lparr>libFileLine := libFileLine s + 1,
      openedGroupNumList := butlast (openedGroupNumList s),
      lastOpenedGroupNum := getLastOpenedGroupNum (butlast (openedGroupNumList s))\<rparr>"
  from Cons.prems have ne: "openedGroupNumList s \<noteq> []" by auto
  with Cons.prems have st: "step s l = Inr ?s" by (intro step_done) auto
  have "\<exists>s'. run ?s cl = Inr s' \<and> groupList s' = groupList ?s \<and> printed s' = printed ?s"
    using Cons.prems by (intro Cons.IH) auto
  with st show ?case by auto
qed

text \<open>
  C4, as stated, fails: a file that ends with a group open is parsed without any
  diagnostic, and a closing line with no open group ends the parse with the exception of
  \<^verbatim>\<open>pop\<close> on the empty stack.
\<close>

theorem unbalanced_braces_counterexample:
  "libertyParser [''library (L) {\<newline>''] = Inr ([new_group (- 1) 0 ''library'' ''L''], [])
   \<and> libertyParser [''library (L) {\<newline>'', ''}\<newline>'', ''}\<newline>''] = Inl (IndexError, [])"
  by code_simp

text \<open>
  C4, amended.  A file that ends, outside a comment and a continuation, with groups
  still open is not detected: its parse returns normally, and the flat list and the
  diagnostics are those of the file completed with closing lines for open groups, so
  nothing is logged for the missing braces and nothing is truncated.
\<close>

theorem open_groups_at_eof_unnoticed:
  assumes "run init_state lines = Inr s"
    and "\<not> commentMark s" and "multiLinesString s = []"
    and "\<forall>l \<in> set closes. plain_line l \<and> classify l = GroupDone"
    and "length closes \<le> length (openedGroupNumList s)"
  shows "libertyParser lines = Inr (groupList s, printed s)
    \<and> libertyParser (lines @ closes) = Inr (groupList s, printed s)"
  using assms(1) run_closes [OF assms(2-5)]
  by (auto simp: libertyParser_def run_append)

theorem open_groups_at_eof_unnoticed_witness:
  "run init_state open_at_eof = Inr open_at_eof_state
   \<and> \<not> commentMark open_at_eof_state \<and> multiLinesString open_at_eof_state = []
   \<and> list_all (\<lambda>l. plain_line l \<and> classify l = GroupDone) [''  }\<newline>'', ''}\<newline>'']
   \<and> length [''  }\<newline>'', ''}\<newline>''] \<le> length (openedGroupNumList open_at_eof_state)
   \<and> libertyParser open_at_eof = Inr (groupList open_at_eof_state, [])
   \<and> libertyParser (open_at_eof @ [''  }\<newline>'', ''}\<newline>'']) = Inr (groupList open_at_eof_state, [])"
proof -
  have r: "run init_state open_at_eof = Inr open_at_eof_state" by code_simp
  have c: "\<not> commentMark open_at_eof_state" and m: "multiLinesString open_at_eof_state = []"
    by (simp_all add: open_at_eof_state_def)
  have d: "\<forall>l \<in> set [''  }\<newline>'', ''}\<newline>'']. plain_line l \<and> classify l = GroupDone" by code_simp
  have n: "length [''  }\<newline>'', ''}\<newline>''] \<le> length (openedGroupNumList open_at_eof_state)"
    by (simp add: open_at_eof_state_def)
  have p: "printed open_at_eof_state = []" by (simp add: open_at_eof_state_def)
  from d have d': "list_all (\<lambda>l. plain_line l \<and> classify l = GroupDone) [''  }\<newline>'', ''}\<newline>'']"
    by (simp add: list_all_iff)
  from open_groups_at_eof_unnoticed [OF r c m d n] p
  have t: "libertyParser open_at_eof = Inr (groupList open_at_eof_state, [])"
    "libertyParser (open_at_eof @ [''  }\<newline>'', ''}\<newline>'']) = Inr (groupList open_at_eof_state, [])"
    by simp_all
  show ?thesis by (intro conjI) (rule r c m d' n t)+
qed

subsection \<open>Block comments\<close>

lemma step_in_comment:
  "commentMark s \<Longrightarrow> step s l =
     Inr (s\<lparr>libFileLine := libFileLine s + 1, commentMark := \<not> matches comment_end_re l\<rparr>)"
  by (simp add: step_def Let_def)

lemma run_comment_body:
  "commentMark s \<Longrightarrow> \<forall>l \<in> set body. \<not> matches comment_end_re l \<Longrightarrow>
   run s (body @ rest) = run (s\<lparr>libFileLine := libFileLine s + length body\<rparr>) rest"
proof (induction body arbitrary: s)
  case Nil
  then show ?case by simp
next
  case (Cons l body)
  then have "step s l = Inr (s\<lparr>libFileLine := libFileLine s + 1\<rparr>)"
    by (simp add: step_in_comment)
  moreover have "run (s\<lparr>libFileLine := libFileLine s + 1\<rparr>) (body @ rest)
      = run (s\<lparr>libFileLine := libFileLine s + 1,
               libFileLine := libFileLine (s\<lparr>libFileLine := libFileLine s + 1\<rparr>) + length body\<rparr>) rest"
    using Cons.prems by (subst Cons.IH) simp_all
  ultimately show ?case by (simp add: add.commute add.left_commute)
qed

lemma run_comment:
  assumes "commentMark s" and "\<forall>l \<in> set body. \<not> matches comment_end_re l"
    and "matches comment_end_re e"
  shows "run s (body @ e # rest)
     = run (s\<lparr>libFileLine := libFileLine s + length body + 1, commentMark := False\<rparr>) rest"
  using assms by (simp add: run_comment_body step_in_comment)

lemma step_comment_start:
  assumes "\<not> commentMark s" and "multiLinesString s = []" and "plain_line start"
    and "classify start = CommentStart" and "\<not> matches comment_end_re start"
  shows "step s start = Inr (s\<lparr>libFileLine := libFileLine s + 1, commentMark := True\<rparr>)"
  using assms by (simp add: step_def Let_def plain_line_def act_def clear_multi_def)

lemma run_whole_comment:
  assumes "\<not> commentMark s" and "multiLinesString s = []" and "plain_line start"
    and "classify start = CommentStart" and "\<not> matches comment_end_re start"
    and "\<forall>l \<in> set body. \<not> matches comment_end_re l" and "matches comment_end_re e"
  shows "run s (start # body @ e # rest) = run (s\<lparr>libFileLine := libFileLine s + length body + 2\<rparr>) rest"
proof -
  let ?s = "s\<lparr>libFileLine := libFileLine s + 1, commentMark := True\<rparr>"
  have "run s (start # body @ e # rest) = run ?s (body @ e # rest)"
    using step_comment_start [OF assms(1-5)] by simp
  also have "\<dots> = run (?s\<lparr>libFileLine := libFileLine ?s + length body + 1, commentMark := False\<rparr>) rest"
    using assms(6,7) by (intro run_comment) simp_all
  also have "?s\<lparr>libFileLine := libFileLine ?s + length body + 1, commentMark := False\<rparr>
      = s\<lparr>libFileLine := libFileLine s + length body + 2\<rparr>"
    using assms(1) by simp
  finally show ?thesis .
qed

lemma scan_comment_body:
  "\<forall>l \<in> set body. \<not> searches scan_comment_end_re l \<Longrightarrow>
   scan i True locs (body @ rest) = scan (i + length body) True locs rest"
  by (induction body arbitrary: i) simp_all

lemma scan_whole_comment:
  assumes "matches scan_comment_start_re start" and "\<not> searches scan_comment_end_re start"
    and "\<forall>l \<in> set body. \<not> searches scan_comment_end_re l" and "searches scan_comment_end_re e"
  shows "scan i False locs (start # body @ e # rest) = scan (i + length body + 2) False locs rest"
  using assms by (simp add: scan_comment_body)

text \<open>
  C8, as stated, fails: the comment below starts behind an attribute on the same line,
  neither scanner takes that line for a comment start, and the line \<^verbatim>\<open>cell (FAKE) {\<close>
  inside the comment is both a cell of the parsed library and a recorded cell location.
\<close>

theorem comment_behind_attribute_counterexample:
  "cell_list_of fake_midline = Inr [Scalar (PStr ''FAKE'')]
   \<and> scan 1 False [] fake_midline = [(''FAKE'', 3)]"
  by code_simp

text \<open>
  C8, amended.  Text inside a block comment that the scanners recognise is never parsed
  as a declaration.  For the parser: when a line read outside a comment and a
  continuation is classified as a comment start and has no end marker at its end, it and
  the lines up to the next line that ends with the end marker only advance the line
  count, whatever the lines between them hold.  For the pre-scan of
  \<^verbatim>\<open>genCellLibFile\<close>: the same holds from a line that begins, after optional white space,
  with the start marker and has no end marker at its end.  So a line \<^verbatim>\<open>cell (FAKE) {\<close>
  between them adds nothing to the flat list, hence to \<^verbatim>\<open>getCellList\<close>, nor to the
  recorded cell locations.
\<close>

theorem recognised_comment_is_skipped:
  "(\<not> commentMark s \<and> multiLinesString s = [] \<and> plain_line start
      \<and> classify start = CommentStart \<and> \<not> matches comment_end_re start
      \<and> (\<forall>l \<in> set body. \<not> matches comment_end_re l) \<and> matches comment_end_re e
    \<longrightarrow> run s (start # body @ e # rest)
         = run (s\<lparr>libFileLine := libFileLine s + length body + 2\<rparr>) rest)
   \<and> (matches scan_comment_start_re start \<and> \<not> searches scan_comment_end_re start
      \<and> (\<forall>l \<in> set body. \<not> searches scan_comment_end_re l) \<and> searches scan_comment_end_re e
    \<longrightarrow> scan i False locs (start # body @ e # rest)
         = scan (i + length body + 2) False locs rest)"
  using run_whole_comment [of s start body e rest] scan_whole_comment [of start body e i locs rest]
  by blast

theorem recognised_comment_is_skipped_witness:
  "run in_library commented_out = run (in_library\<lparr>libFileLine := 5\<rparr>) after_comment
   \<and> scan 2 False [] commented_out = scan 6 False [] after_comment
   \<and> cell_list_of (''library (L) {\<newline>'' # commented_out) = Inr [Scalar (PStr ''REAL'')]
   \<and> scan 1 False [] (''library (L) {\<newline>'' # commented_out) = [(''REAL'', 6)]"
proof -
  have h: "\<not> commentMark in_library \<and> multiLinesString in_library = []
      \<and> plain_line ''  /* old cells\<newline>'' \<and> classify ''  /* old cells\<newline>'' = CommentStart
      \<and> \<not> matches comment_end_re ''  /* old cells\<newline>''
      \<and> (\<forall>l \<in> set fake_body. \<not> matches comment_end_re l)
      \<and> matches comment_end_re ''  end of old cells */\<newline>''"
    by code_simp
  have g: "matches scan_comment_start_re ''  /* old cells\<newline>''
      \<and> \<not> searches scan_comment_end_re ''  /* old cells\<newline>''
      \<and> (\<forall>l \<in> set fake_body. \<not> searches scan_comment_end_re l)
      \<and> searches scan_comment_end_re ''  end of old cells */\<newline>''"
    by code_simp
  have n: "libFileLine in_library + length fake_body + 2 = 5" "2 + length fake_body + 2 = 6"
    by (simp_all add: in_library_def fake_body_def)
  note t = recognised_comment_is_skipped [of in_library "''  /* old cells\<newline>''" fake_body
      "''  end of old cells */\<newline>''" after_comment 2 "[]"]
  from t h have "run in_library (''  /* old cells\<newline>'' # fake_body @ ''  end of old cells */\<newline>'' # after_comment)
      = run (in_library\<lparr>libFileLine := libFileLine in_library + length fake_body + 2\<rparr>) after_comment"
    by blast
  then have a: "run in_library commented_out = run (in_library\<lparr>libFileLine := 5\<rparr>) after_comment"
    by (simp only: n commented_out_def)
  from t g have "scan 2 False [] (''  /* old cells\<newline>'' # fake_body @ ''  end of old cells */\<newline>'' # after_comment)
      = scan (2 + length fake_body + 2) False [] after_comment"
    by blast
  then have b: "scan 2 False [] commented_out = scan 6 False [] after_comment"
    by (simp only: n commented_out_def)
  have c: "cell_list_of (''library (L) {\<newline>'' # commented_out) = Inr [Scalar (PStr ''REAL'')]"
    by code_simp
  have d: "scan 1 False [] (''library (L) {\<newline>'' # commented_out) = [(''REAL'', 6)]"
    by code_simp
  show ?thesis by (intro conjI) (rule a b c d)+
qed

subsection \<open>The serializer\<close>

text \<open>A serialization that succeeds within a recursion limit succeeds within any larger one.\<close>

lemma written_mono:
  "list_all2 (\<lambda>w w'. snd w = None \<longrightarrow> w' = w) ws ws' \<Longrightarrow> snd (written ws) = None \<Longrightarrow>
   written ws' = written ws"
proof (induction ws arbitrary: ws' rule: written.induct)
  case 1
  then show ?case by simp
next
  case (2 t e ws)
  then show ?case by simp
next
  case (3 t ws)
  from "3.prems"(1) obtain w' rest where ws': "ws' = w' # rest"
    and h: "snd (t, None :: error option) = None \<longrightarrow> w' = (t, None)"
    and r: "list_all2 (\<lambda>w w'. snd w = None \<longrightarrow> w' = w) ws rest"
    by (auto simp: list_all2_Cons1)
  from h have w': "w' = (t, None)" by simp
  from "3.prems"(2) have "snd (written ws) = None" by (simp split: prod.splits)
  from "3.IH" [OF r this] have "written rest = written ws" .
  with ws' w' show ?case by simp
qed

lemma written_map_mono:
  assumes "\<And>x. x \<in> set xs \<Longrightarrow> snd (f x) = None \<Longrightarrow> g x = f x"
    and "snd (written (map f xs)) = None"
  shows "written (map g xs) = written (map f xs)"
proof -
  have "list_all2 (\<lambda>w w'. snd w = None \<longrightarrow> w' = w) (map f xs) (map g xs)"
    using assms(1) by (auto simp: list_all2_map1 list_all2_map2 list_all2_same)
  from written_mono [OF this assms(2)] show ?thesis .
qed

lemma restoreLib_rec_mono:
  "snd (restoreLib_rec k gl d) = None \<Longrightarrow> restoreLib_rec (k + m) gl d = restoreLib_rec k gl d"
proof (induction k arbitrary: d)
  case 0
  then show ?case by (simp add: raises_def)
next
  case (Suc k)
  from Suc.prems obtain depthv groupType groupName groupDepth where
    keys: "map_of d ''depth'' = Some depthv" "map_of d ''type'' = Some groupType"
      "map_of d ''name'' = Some groupName" "depthv = Scalar (PInt groupDepth)"
    by (auto simp: raises_def split: option.splits pyval.splits pyatom.splits)
  have sub: "written (map (\<lambda>a. case a of PRef i \<Rightarrow> restoreLib_rec (k + m) gl (gl ! i)
                                 | _ \<Rightarrow> raises TypeError) xs)
      = written (map (\<lambda>a. case a of PRef i \<Rightarrow> restoreLib_rec k gl (gl ! i)
                                 | _ \<Rightarrow> raises TypeError) xs)"
    if "snd (written (map (\<lambda>a. case a of PRef i \<Rightarrow> restoreLib_rec k gl (gl ! i)
                                 | _ \<Rightarrow> raises TypeError) xs)) = None" for xs
    using _ that by (rule written_map_mono) (auto split: pyatom.splits dest: Suc.IH)
  let ?item = "\<lambda>n (key, v).
      if key \<in> {''fatherGroupNum'', ''depth'', ''type'', ''name''} then wrote []
      else if key = ''group'' then
        (case iter_value v of
           Inl e \<Rightarrow> raises e
         | Inr xs \<Rightarrow>
             written (map (\<lambda>a. case a of
                              PRef i \<Rightarrow> restoreLib_rec n gl (gl ! i)
                            | _ \<Rightarrow> raises TypeError) xs))
      else if key = ''values'' then
        (case v of Scalar (PStr t) \<Rightarrow> wrote (write_values groupDepth key t)
         | _ \<Rightarrow> (values_header groupDepth key, Some TypeError))
      else if key = ''table'' then
        (case v of Scalar (PStr t) \<Rightarrow> wrote (write_table groupDepth key t)
         | _ \<Rightarrow> raises AttributeError)
      else
        (case v of
           PList xs \<Rightarrow> written (map (write_item groupDepth key) xs)
         | Scalar a \<Rightarrow> wrote (write_scalar groupDepth key a))"
  let ?all = "\<lambda>n. [wrote (spaces groupDepth @ py_str groupType @ '' ('' @ py_str groupName @ '') {''
                          @ [newline])]
                  @ map (?item n) d
                  @ [wrote (spaces groupDepth @ ''}'' @ [newline])]"
  have item: "?item (k + m) x = ?item k x" if "snd (?item k x) = None" for x
    using that by (cases x) (auto split: if_splits sum.splits dest: sub)
  from Suc.prems keys have w: "snd (written (?all k)) = None" by simp
  have "list_all2 (\<lambda>w w'. snd w = None \<longrightarrow> w' = w) (?all k) (?all (k + m))"
    using item by (auto simp: list_all2_map1 list_all2_map2 list_all2_same intro!: list_all2_appendI)
  from written_mono [OF this w] keys show ?case by simp
qed

text \<open>
  C9.  The parse of the minimal library gives the entity list \<^verbatim>\<open>INV\<close> and the area
  \<^verbatim>\<open>1\<close> of that cell; \<^verbatim>\<open>restoreLib\<close> writes it, and returns, within any recursion limit
  of 3 or more; and the parse of the written file builds the same store again, hence the same
  entity list and the same area.
\<close>

theorem roundtrip_minimal_library:
  "init minimal_world ''min.lib'' [] = (Inr minimal_store, minimal_world)
   \<and> getCellList minimal_store = Inr [Scalar (PStr ''INV'')]
   \<and> getCellArea minimal_store [] = Inr [(''INV'', Scalar (PStr ''1''))]
   \<and> restoreLib (3 + m) minimal_store minimal_world ''out.lib''
       = (Inr (), write_file ''out.lib'' restored_lib minimal_world)
   \<and> init (write_file ''out.lib'' restored_lib minimal_world) ''out.lib'' []
       = (Inr minimal_store, write_file ''out.lib'' restored_lib minimal_world)"
proof -
  have a: "init minimal_world ''min.lib'' [] = (Inr minimal_store, minimal_world)"
    by code_simp
  have b: "getCellList minimal_store = Inr [Scalar (PStr ''INV'')]"
    by code_simp
  have c: "getCellArea minimal_store [] = Inr [(''INV'', Scalar (PStr ''1''))]"
    by code_simp
  have three: "restoreLib_rec 3 minimal_store (minimal_store ! 0) = (restored_lib, None)"
    by code_simp
  then have "snd (restoreLib_rec 3 minimal_store (minimal_store ! 0)) = None" by simp
  then have "restoreLib_rec (3 + m) minimal_store (minimal_store ! 0)
      = restoreLib_rec 3 minimal_store (minimal_store ! 0)"
    by (rule restoreLib_rec_mono)
  with three have d: "restoreLib (3 + m) minimal_store minimal_world ''out.lib''
       = (Inr (), write_file ''out.lib'' restored_lib minimal_world)"
    by (simp add: restoreLib_def)
  have e: "init (write_file ''out.lib'' restored_lib minimal_world) ''out.lib'' []
       = (Inr minimal_store, write_file ''out.lib'' restored_lib minimal_world)"
    by code_simp
  show ?thesis by (intro conjI) (rule a b c d e)+
qed

subsection \<open>The reduced file of the last cell\<close>

text \<open>
  C3.  For the library of two cells and the request of both, the range of the last cell
  runs to the end of the file and holds the closing brace of the library; the closing
  brace that \<^verbatim>\<open>genCellLibFile\<close> adds is one too many, and the parse of the reduced
  file raises at it.  The parser of the full file is built without error.
\<close>

theorem subset_with_last_cell_raises:
  "init two_cells_world ''f.lib'' [''A'', ''B''] =
     (Inl IndexError, write_file ''f.lib.A_B'' (two_cells @ ''}\<newline>'') two_cells_world)
   \<and> init two_cells_world ''f.lib'' [] = (Inr two_cells_store, two_cells_world)
   \<and> getCellList two_cells_store = Inr [Scalar (PStr ''A''), Scalar (PStr ''B'')]"
  by code_simp

end
